theory Spec2Isabelle
  imports Complex_Main "HOL-Library.AList"
begin

section \<open>Python values\<close>

text \<open>
  The simulator is written in Python. Its exceptions are values of \<open>py_error\<close>; a call
  that may raise returns \<open>py_error + 'a\<close> with \<open>Inl\<close> for the exception.

  A Python \<open>float\<close> is an IEEE 754 double. A finite double is modelled by the real number
  it denotes (the two zeros are one value), the three special values by constructors of
  their own. An arithmetic operation on doubles returns its exact result rounded to the
  nearest double, a tie going to the even significand (\<open>rnd_val\<close>), and an infinity when the
  rounded result leaves the range of the doubles (\<open>fl\<close>).
\<close>

datatype py_error = ValueError | TypeError | ZeroDivisionError | OverflowError
  | RuntimeError | CanError | OtherError

datatype pyfloat = Finite real | PosInf | NegInf | NaN

datatype pyvalue = PyFloat pyfloat | PyInt int | PyBool bool | PyNone | PyObject

text \<open>
  \<open>PyObject\<close> stands for any object that \<open>float()\<close> rejects (a list, a dict, a string that
  does not spell a number). A string that spells a number behaves as the \<open>PyFloat\<close> it spells.
\<close>

text \<open>The nearest integer, a tie going to the even neighbour.\<close>

definition round_half_even :: "real \<Rightarrow> int" where
  "round_half_even x =
     (let f = \<lfloor>x\<rfloor>; d = x - of_int f
      in if d < 1 / 2 then f
         else if 1 / 2 < d then f + 1
         else if even f then f else f + 1)"

text \<open>
  The doubles around \<open>x\<close> are the integer multiples of \<open>2 ^ ulp_exp x\<close>: with
  \<open>2^e \<le> |x| < 2^(e+1)\<close> the spacing is \<open>2^(e-52)\<close> (53 significant bits), and \<open>2^-1074\<close>
  below the smallest normal double \<open>2^-1022\<close>. \<open>rnd_val x\<close> is the multiple nearest to \<open>x\<close>.
  On a concrete value it is computed from the exponent \<open>e\<close> (lemmas \<open>rnd_val_eval\<close> and
  \<open>fl_eval\<close> below).
\<close>

definition ulp_exp :: "real \<Rightarrow> int" where
  "ulp_exp x = (if x = 0 then - 1074 else max \<lfloor>log 2 \<bar>x\<bar>\<rfloor> (- 1022) - 52)"

definition rnd_val :: "real \<Rightarrow> real" where
  "rnd_val x = of_int (round_half_even (x / 2 powi ulp_exp x)) * 2 powi ulp_exp x"

text \<open>
  The largest double is \<open>2^1024 - 2^971\<close>: a result that rounds to \<open>2^1024\<close> or beyond in
  magnitude is an infinity.
\<close>

definition fl :: "real \<Rightarrow> pyfloat" where
  "fl x = (let r = rnd_val x
           in if 2 ^ 1024 \<le> r then PosInf
              else if r \<le> - (2 ^ 1024) then NegInf
              else Finite r)"

fun isfinite :: "pyfloat \<Rightarrow> bool" where
  "isfinite (Finite r) = True"
| "isfinite PosInf = False"
| "isfinite NegInf = False"
| "isfinite NaN = False"

text \<open>
  \<open>float(int)\<close>, also where an \<open>int\<close> operand meets a \<open>float\<close>: the nearest double, and
  \<open>OverflowError\<close> when the integer is too large for a double.
\<close>

definition int_to_float :: "int \<Rightarrow> py_error + real" where
  "int_to_float i = (case fl (of_int i) of Finite r \<Rightarrow> Inr r | _ \<Rightarrow> Inl OverflowError)"

fun py_float :: "pyvalue \<Rightarrow> py_error + pyfloat" where
  "py_float (PyFloat f) = Inr f"
| "py_float (PyInt i) = (case int_to_float i of Inl e \<Rightarrow> Inl e | Inr r \<Rightarrow> Inr (Finite r))"
| "py_float (PyBool b) = Inr (Finite (if b then 1 else 0))"
| "py_float PyNone = Inl TypeError"
| "py_float PyObject = Inl TypeError"

text \<open>
  A number of a DBC file as cantools holds it, and a number literal of the sources: an
  \<open>int\<close> or a finite \<open>float\<close>. \<open>num_val\<close> is its value (\<open>==\<close> and \<open>!=\<close> between an \<open>int\<close>
  and a \<open>float\<close> compare the values), \<open>to_float\<close> its conversion where it is an operand of
  a \<open>float\<close>.
\<close>

datatype pynum = PyI int | PyF real

fun num_val :: "pynum \<Rightarrow> real" where
  "num_val (PyI i) = of_int i"
| "num_val (PyF r) = r"

fun to_float :: "pynum \<Rightarrow> py_error + real" where
  "to_float (PyI i) = int_to_float i"
| "to_float (PyF r) = Inr r"

text \<open>\<open>a - b\<close> on floats, for a finite right operand.\<close>

fun fsub :: "pyfloat \<Rightarrow> real \<Rightarrow> pyfloat" where
  "fsub (Finite a) b = fl (a - b)"
| "fsub PosInf b = PosInf"
| "fsub NegInf b = NegInf"
| "fsub NaN b = NaN"

text \<open>\<open>a + b\<close> on floats, for a finite right operand.\<close>

fun fadd :: "pyfloat \<Rightarrow> real \<Rightarrow> pyfloat" where
  "fadd (Finite a) b = fl (a + b)"
| "fadd PosInf b = PosInf"
| "fadd NegInf b = NegInf"
| "fadd NaN b = NaN"

text \<open>\<open>a / b\<close> on floats, for a finite right operand: a zero divisor raises.\<close>

fun fdiv :: "pyfloat \<Rightarrow> real \<Rightarrow> py_error + pyfloat" where
  "fdiv a b =
     (if b = 0 then Inl ZeroDivisionError
      else Inr (case a of
                  Finite x \<Rightarrow> fl (x / b)
                | PosInf \<Rightarrow> (if 0 < b then PosInf else NegInf)
                | NegInf \<Rightarrow> (if 0 < b then NegInf else PosInf)
                | NaN \<Rightarrow> NaN))"

text \<open>
  \<open>round(x)\<close> of a float: the nearest integer, a tie going to the even neighbour; an
  infinity raises \<open>OverflowError\<close> and a NaN raises \<open>ValueError\<close>.
\<close>

fun py_round :: "pyfloat \<Rightarrow> py_error + int" where
  "py_round (Finite x) = Inr (round_half_even x)"
| "py_round PosInf = Inl OverflowError"
| "py_round NegInf = Inl OverflowError"
| "py_round NaN = Inl ValueError"

text \<open>\<open>1 << n\<close>: a negative shift count raises \<open>ValueError\<close>.\<close>

definition shl1 :: "int \<Rightarrow> py_error + int" where
  "shl1 n = (if n < 0 then Inl ValueError else Inr (2 ^ nat n))"

text \<open>
  The doubles that the literals \<open>0.1\<close>, \<open>0.01\<close> and \<open>0.001\<close> denote
  (\<open>float.as_integer_ratio\<close>).
\<close>

definition dbl_0_1 :: real where
  "dbl_0_1 = 3602879701896397 / 2 ^ 55"

definition dbl_0_01 :: real where
  "dbl_0_01 = 5764607523034235 / 2 ^ 59"

definition dbl_0_001 :: real where
  "dbl_0_001 = 1152921504606847 / 2 ^ 60"

section \<open>Signal codec (dbc_codec.py)\<close>

text \<open>
  The fields of a cantools \<open>Signal\<close> and \<open>Message\<close> that the simulator reads. Scale and
  offset are numbers as the DBC parser leaves them, an \<open>int\<close> or a \<open>float\<close>. A Python dict
  whose entries are iterated or tested for emptiness is an association list in insertion
  order (\<open>AList.update\<close> assigns a key as Python does: in place when the key is present, at
  the end otherwise); a dict that is only read by key is a map.
\<close>

record signal =
  sig_name :: string
  sig_start :: int
  sig_length :: int
  byte_order :: string
  is_signed :: bool
  scale :: pynum
  offset :: pynum

record message =
  frame_id :: int
  msg_name :: string
  signals :: "signal list"
  msg_length :: int
  is_extended_frame :: bool

definition raw_limits :: "signal \<Rightarrow> py_error + (int \<times> int)" where
  "raw_limits sg =
     (let bits = sig_length sg
      in if is_signed sg
         then (case shl1 (bits - 1) of
                 Inl e \<Rightarrow> Inl e
               | Inr p \<Rightarrow> Inr (- p, p - 1))
         else (case shl1 bits of
                 Inl e \<Rightarrow> Inl e
               | Inr p \<Rightarrow> Inr (0, p - 1)))"

text \<open>
  \<open>round((phys - sig.offset) / sig.scale)\<close> on a float \<open>phys\<close>: each operation converts an
  \<open>int\<close> operand to a float and rounds its result to a double.
\<close>

definition to_raw :: "signal \<Rightarrow> pyfloat \<Rightarrow> py_error + int" where
  "to_raw sg phys =
     (case to_float (offset sg) of
        Inl e \<Rightarrow> Inl e
      | Inr c \<Rightarrow>
          (let d = fsub phys c
           in case to_float (scale sg) of
                Inl e \<Rightarrow> Inl e
              | Inr s \<Rightarrow>
                  (case fdiv d s of
                     Inl e \<Rightarrow> Inl e
                   | Inr q \<Rightarrow> py_round q)))"

text \<open>
  \<open>raw * sig.scale + sig.offset\<close> on an \<open>int\<close> \<open>raw\<close>: the result is an \<open>int\<close>, computed
  exactly, when scale and offset are both of type \<open>int\<close>, and a float otherwise, each float
  operation rounding its result to a double.
\<close>

definition to_phys :: "signal \<Rightarrow> int \<Rightarrow> py_error + pyvalue" where
  "to_phys sg raw =
     (case scale sg of
        PyI k \<Rightarrow>
          (case offset sg of
             PyI c \<Rightarrow> Inr (PyInt (raw * k + c))
           | PyF c \<Rightarrow>
               (case int_to_float (raw * k) of
                  Inl e \<Rightarrow> Inl e
                | Inr m \<Rightarrow> Inr (PyFloat (fl (m + c)))))
      | PyF s \<Rightarrow>
          (case int_to_float raw of
             Inl e \<Rightarrow> Inl e
           | Inr r \<Rightarrow>
               (let m = fl (r * s)
                in case to_float (offset sg) of
                     Inl e \<Rightarrow> Inl e
                   | Inr c \<Rightarrow> Inr (PyFloat (fadd m c)))))"

definition clamp_raw :: "signal \<Rightarrow> int \<Rightarrow> py_error + (int \<times> bool)" where
  "clamp_raw sg raw_val =
     (case raw_limits sg of
        Inl e \<Rightarrow> Inl e
      | Inr (lo, hi) \<Rightarrow>
          if raw_val < lo then Inr (lo, True)
          else if hi < raw_val then Inr (hi, True)
          else Inr (raw_val, False))"

text \<open>
  The body of the loop of \<open>encode_message_safe\<close>, in the order of the source: the requested
  value is cast to a float (0.0 when the cast raises), a non-finite float is replaced by
  0.0, the raw conversion falls back to 0 when it raises, and clamping and the conversion
  back to physical units are not guarded. Logging is left out.
\<close>

definition phys_val_of :: "pyvalue \<Rightarrow> pyfloat" where
  "phys_val_of requested =
     (let phys_val = (case py_float requested of Inl e \<Rightarrow> Finite 0 | Inr f \<Rightarrow> f)
      in if \<not> isfinite phys_val then Finite 0 else phys_val)"

definition raw_of :: "signal \<Rightarrow> pyfloat \<Rightarrow> int" where
  "raw_of sg phys_val = (case to_raw sg phys_val of Inl e \<Rightarrow> 0 | Inr raw \<Rightarrow> raw)"

type_synonym used_dict = "(string \<times> pyvalue) list"
type_synonym clamped_dict = "(string \<times> (pyvalue \<times> pyvalue)) list"

definition encode_signal ::
  "signal \<Rightarrow> pyvalue \<Rightarrow> used_dict \<times> clamped_dict \<Rightarrow> py_error + (used_dict \<times> clamped_dict)" where
  "encode_signal sg requested acc =
     (let phys_val = phys_val_of requested;
          raw = raw_of sg phys_val
      in case clamp_raw sg raw of
           Inl e \<Rightarrow> Inl e
         | Inr (raw_clamped, was_clamped) \<Rightarrow>
             (case to_phys sg raw_clamped of
                Inl e \<Rightarrow> Inl e
              | Inr phys_used \<Rightarrow>
                  Inr (AList.update (sig_name sg) phys_used (fst acc),
                       if was_clamped
                       then AList.update (sig_name sg) (requested, phys_used) (snd acc)
                       else snd acc)))"

text \<open>\<open>desired_phys.get(sig.name, 0)\<close>\<close>

definition desired_get :: "(string \<rightharpoonup> pyvalue) \<Rightarrow> string \<Rightarrow> pyvalue" where
  "desired_get desired_phys n = (case desired_phys n of None \<Rightarrow> PyInt 0 | Some v \<Rightarrow> v)"

fun encode_signals ::
  "signal list \<Rightarrow> (string \<rightharpoonup> pyvalue) \<Rightarrow> used_dict \<times> clamped_dict
     \<Rightarrow> py_error + (used_dict \<times> clamped_dict)" where
  "encode_signals [] desired_phys acc = Inr acc"
| "encode_signals (sg # sgs) desired_phys acc =
     (case encode_signal sg (desired_get desired_phys (sig_name sg)) acc of
        Inl e \<Rightarrow> Inl e
      | Inr acc' \<Rightarrow> encode_signals sgs desired_phys acc')"

text \<open>
  \<open>msg.encode\<close> is cantools' bit packer, a library outside the repository: it is the
  parameter \<open>pack\<close>, which returns the payload bytes or raises.
\<close>

type_synonym packer = "message \<Rightarrow> used_dict \<Rightarrow> py_error + nat list"

definition encode_message_safe ::
  "packer \<Rightarrow> message \<Rightarrow> (string \<rightharpoonup> pyvalue)
     \<Rightarrow> py_error + (nat list \<times> used_dict \<times> clamped_dict)" where
  "encode_message_safe pack msg desired_phys =
     (case encode_signals (signals msg) desired_phys ([], []) of
        Inl e \<Rightarrow> Inl e
      | Inr (used_phys, clamped) \<Rightarrow>
          (case pack msg used_phys of
             Inl e \<Rightarrow> Inl e
           | Inr payload \<Rightarrow> Inr (payload, used_phys, clamped)))"

section \<open>DBC loader (dbc_loader.py)\<close>

text \<open>
  The layout that \<open>load_db\<close> accepts. \<open>EXPECTED_IDS\<close> and the values of \<open>EXPECTED_SIGNALS\<close>
  are Python sets, the other tables dicts that are read by key, here as association lists.
\<close>

record database =
  messages :: "message list"

definition EXPECTED_IDS :: "int set" where
  "EXPECTED_IDS = {1512, 1513, 1514, 1515, 1516}"

definition EXPECTED_NAMES :: "(int \<times> string) list" where
  "EXPECTED_NAMES =
     [(1512, ''megasquirt_dash0''), (1513, ''megasquirt_dash1''), (1514, ''megasquirt_dash2''),
      (1515, ''megasquirt_dash3''), (1516, ''megasquirt_dash4'')]"

definition EXPECTED_DLC :: int where
  "EXPECTED_DLC = 8"

definition EXPECTED_SIGNALS :: "(int \<times> string set) list" where
  "EXPECTED_SIGNALS =
     [(1512, {''map'', ''rpm'', ''clt'', ''tps''}),
      (1513, {''pw1'', ''pw2'', ''mat'', ''adv_deg''}),
      (1514, {''AFR1'', ''afrtgt1'', ''egocor1'', ''egt1'', ''pwseq1''}),
      (1515, {''batt'', ''sensors1'', ''sensors2'', ''knk_rtd''}),
      (1516, {''VSS1'', ''tc_retard'', ''launch_timing''})]"

record signal_meta =
  m_start :: int
  m_length :: int
  m_byte_order :: string
  m_is_signed :: bool
  m_scale :: pynum
  m_offset :: pynum

definition EXPECTED_SIGNAL_META :: "(int \<times> (string \<times> signal_meta) list) list" where
  "EXPECTED_SIGNAL_META =
     [(1512,
       [(''map'', \<lparr>m_start = 7, m_length = 16, m_byte_order = ''big_endian'',
                   m_is_signed = True, m_scale = PyF dbl_0_1, m_offset = PyI 0\<rparr>),
        (''rpm'', \<lparr>m_start = 23, m_length = 16, m_byte_order = ''big_endian'',
                   m_is_signed = False, m_scale = PyI 1, m_offset = PyI 0\<rparr>),
        (''clt'', \<lparr>m_start = 39, m_length = 16, m_byte_order = ''big_endian'',
                   m_is_signed = True, m_scale = PyF dbl_0_1, m_offset = PyI 0\<rparr>),
        (''tps'', \<lparr>m_start = 55, m_length = 16, m_byte_order = ''big_endian'',
                   m_is_signed = True, m_scale = PyF dbl_0_1, m_offset = PyI 0\<rparr>)]),
      (1513,
       [(''pw1'', \<lparr>m_start = 7, m_length = 16, m_byte_order = ''big_endian'',
                   m_is_signed = False, m_scale = PyF dbl_0_001, m_offset = PyI 0\<rparr>),
        (''pw2'', \<lparr>m_start = 23, m_length = 16, m_byte_order = ''big_endian'',
                   m_is_signed = False, m_scale = PyF dbl_0_001, m_offset = PyI 0\<rparr>),
        (''mat'', \<lparr>m_start = 39, m_length = 16, m_byte_order = ''big_endian'',
                   m_is_signed = True, m_scale = PyF dbl_0_1, m_offset = PyI 0\<rparr>),
        (''adv_deg'', \<lparr>m_start = 55, m_length = 16, m_byte_order = ''big_endian'',
                       m_is_signed = True, m_scale = PyF dbl_0_1, m_offset = PyI 0\<rparr>)]),
      (1514,
       [(''AFR1'', \<lparr>m_start = 15, m_length = 8, m_byte_order = ''big_endian'',
                    m_is_signed = False, m_scale = PyF dbl_0_1, m_offset = PyI 0\<rparr>),
        (''afrtgt1'', \<lparr>m_start = 7, m_length = 8, m_byte_order = ''big_endian'',
                       m_is_signed = False, m_scale = PyF dbl_0_1, m_offset = PyI 0\<rparr>),
        (''egocor1'', \<lparr>m_start = 23, m_length = 16, m_byte_order = ''big_endian'',
                       m_is_signed = True, m_scale = PyF dbl_0_1, m_offset = PyI 0\<rparr>),
        (''egt1'', \<lparr>m_start = 39, m_length = 16, m_byte_order = ''big_endian'',
                    m_is_signed = True, m_scale = PyF dbl_0_1, m_offset = PyI 0\<rparr>),
        (''pwseq1'', \<lparr>m_start = 55, m_length = 16, m_byte_order = ''big_endian'',
                      m_is_signed = True, m_scale = PyF dbl_0_001, m_offset = PyI 0\<rparr>)]),
      (1515,
       [(''batt'', \<lparr>m_start = 7, m_length = 16, m_byte_order = ''big_endian'',
                    m_is_signed = True, m_scale = PyF dbl_0_1, m_offset = PyI 0\<rparr>),
        (''sensors1'', \<lparr>m_start = 23, m_length = 16, m_byte_order = ''big_endian'',
                        m_is_signed = True, m_scale = PyF dbl_0_01, m_offset = PyI 0\<rparr>),
        (''sensors2'', \<lparr>m_start = 39, m_length = 16, m_byte_order = ''big_endian'',
                        m_is_signed = True, m_scale = PyF dbl_0_01, m_offset = PyI 0\<rparr>),
        (''knk_rtd'', \<lparr>m_start = 55, m_length = 8, m_byte_order = ''big_endian'',
                       m_is_signed = False, m_scale = PyF dbl_0_1, m_offset = PyI 0\<rparr>)]),
      (1516,
       [(''VSS1'', \<lparr>m_start = 7, m_length = 16, m_byte_order = ''big_endian'',
                    m_is_signed = False, m_scale = PyF dbl_0_1, m_offset = PyI 0\<rparr>),
        (''tc_retard'', \<lparr>m_start = 23, m_length = 16, m_byte_order = ''big_endian'',
                         m_is_signed = True, m_scale = PyF dbl_0_1, m_offset = PyI 0\<rparr>),
        (''launch_timing'', \<lparr>m_start = 39, m_length = 16, m_byte_order = ''big_endian'',
                             m_is_signed = True, m_scale = PyF dbl_0_1, m_offset = PyI 0\<rparr>)])]"

text \<open>
  The bit-level validation of one signal: whether the list \<open>diff\<close> of the source ends up
  non-empty (\<open>expd\<close> is the variable \<open>exp\<close>).
\<close>

definition signal_diff :: "signal \<Rightarrow> signal_meta \<Rightarrow> bool" where
  "signal_diff sg expd =
     (sig_start sg \<noteq> m_start expd
      \<or> sig_length sg \<noteq> m_length expd
      \<or> byte_order sg \<noteq> m_byte_order expd
      \<or> is_signed sg \<noteq> m_is_signed expd
      \<or> num_val (scale sg) \<noteq> num_val (m_scale expd)
      \<or> num_val (offset sg) \<noteq> num_val (m_offset expd))"

text \<open>\<open>for sig in msg.signals\<close>: a signal without expected metadata is passed over.\<close>

fun check_signals :: "(string \<times> signal_meta) list \<Rightarrow> signal list \<Rightarrow> py_error + unit" where
  "check_signals expected_meta [] = Inr ()"
| "check_signals expected_meta (sg # sgs) =
     (case map_of expected_meta (sig_name sg) of
        None \<Rightarrow> check_signals expected_meta sgs
      | Some expd \<Rightarrow>
          if signal_diff sg expd then Inl RuntimeError
          else check_signals expected_meta sgs)"

text \<open>
  The body of \<open>for msg in db.messages\<close>. \<open>msg_length\<close> is what the source compares with
  \<open>EXPECTED_DLC\<close>: the attribute \<open>dlc\<close> of the message, or \<open>length\<close> when it has none.
\<close>

definition check_message :: "message \<Rightarrow> py_error + unit" where
  "check_message msg =
     (if msg_length msg \<noteq> EXPECTED_DLC then Inl RuntimeError
      else if Some (msg_name msg) \<noteq> map_of EXPECTED_NAMES (frame_id msg) then Inl RuntimeError
      else (let expected_signals =
                  (case map_of EXPECTED_SIGNALS (frame_id msg) of None \<Rightarrow> {} | Some s \<Rightarrow> s);
                found = sig_name ` set (signals msg)
            in if expected_signals \<noteq> {} \<and> found \<noteq> expected_signals then Inl RuntimeError
               else check_signals
                      (case map_of EXPECTED_SIGNAL_META (frame_id msg) of None \<Rightarrow> [] | Some m \<Rightarrow> m)
                      (signals msg)))"

fun check_messages :: "message list \<Rightarrow> py_error + unit" where
  "check_messages [] = Inr ()"
| "check_messages (msg # msgs) =
     (case check_message msg of
        Inl e \<Rightarrow> Inl e
      | Inr u \<Rightarrow> check_messages msgs)"

definition assert_expected_layout :: "database \<Rightarrow> py_error + unit" where
  "assert_expected_layout db =
     (if frame_id ` set (messages db) \<noteq> EXPECTED_IDS then Inl RuntimeError
      else check_messages (messages db))"


section \<open>Fixed-rate scheduler (scheduler.py)\<close>

text \<open>
  The rate, the period and the readings of the monotonic clock are finite doubles and are
  modelled as reals. \<open>s_start\<close> and \<open>s_next\<close> are the fields \<open>_start\<close> and \<open>_next\<close>.
\<close>

record scheduler =
  hz :: real
  dt :: real
  s_start :: "real option"
  s_next :: "real option"

definition scheduler_init :: "real \<Rightarrow> py_error + scheduler" where
  "scheduler_init h =
     (if h \<le> 0 then Inl ValueError
      else Inr \<lparr>hz = h, dt = 1 / h, s_start = None, s_next = None\<rparr>)"

definition scheduler_start :: "scheduler \<Rightarrow> real \<Rightarrow> scheduler" where
  "scheduler_start s now = s\<lparr>s_start := Some now, s_next := Some (now + dt s)\<rparr>"

text \<open>
  The readings of \<open>time.monotonic()\<close> that one call of \<open>wait_next\<close> may take: in
  \<open>start()\<close> when the scheduler is unstarted, at the top of the loop, and after the sleep.
\<close>

record clock =
  t_start :: real
  t_now :: real
  t_woke :: real

text \<open>\<open>self._start or now\<close>: a start time of 0.0 is falsy.\<close>

definition start_or :: "real option \<Rightarrow> real \<Rightarrow> real" where
  "start_or st now = (case st of None \<Rightarrow> now | Some t \<Rightarrow> if t = 0 then now else t)"

text \<open>
  \<open>wait_next\<close> returns the updated scheduler, the time slept (\<open>None\<close> when it did not call
  \<open>time.sleep\<close>) and the elapsed time. Its loop returns in the first iteration.
\<close>

definition wait_next :: "scheduler \<Rightarrow> clock \<Rightarrow> py_error + (scheduler \<times> real option \<times> real)" where
  "wait_next s clk =
     (let s1 = (if s_start s = None \<or> s_next s = None then scheduler_start s (t_start clk) else s)
      in case s_next s1 of
           None \<Rightarrow> Inl TypeError
         | Some nxt \<Rightarrow>
             (let now = t_now clk; sleep_time = nxt - now
              in if 0 < sleep_time
                 then (let now' = t_woke clk
                       in Inr (s1\<lparr>s_next := Some (nxt + dt s1)\<rparr>, Some sleep_time,
                               now' - start_or (s_start s1) now'))
                 else Inr (s1\<lparr>s_next := Some (now + dt s1)\<rparr>, None,
                           now - start_or (s_start s1) now)))"

text \<open>
  The deadline that \<open>wait_next\<close> compares the clock with: the stored one, or the one that
  \<open>start()\<close> sets when the scheduler is unstarted.
\<close>

definition stored_deadline :: "scheduler \<Rightarrow> clock \<Rightarrow> real" where
  "stored_deadline s clk =
     (case (s_start s, s_next s) of
        (Some t0, Some nxt) \<Rightarrow> nxt
      | _ \<Rightarrow> t_start clk + dt s)"

section \<open>Transports (transport.py)\<close>

text \<open>
  What a call into python-can, pyserial or libusb does is the environment's choice: it
  returns or raises. \<open>CanError\<close> is \<open>can.CanError\<close> and its subclasses; every error of
  \<open>py_error\<close> is an \<open>Exception\<close>.
\<close>

datatype outcome = Returns | Raises py_error

datatype lib_call = BusShutdown | BusCloseCall | SerWrite string | SerClose
  | UsbReleaseInterface | UsbClose | UsbExit

text \<open>\<open>try: ... except Exception: pass\<close> around one call.\<close>

definition try_pass :: "outcome \<Rightarrow> outcome" where
  "try_pass r = (case r of Returns \<Rightarrow> Returns | Raises e \<Rightarrow> Returns)"

subsection \<open>TermuxUsbSlcan and TermuxUsbSlcanTransport\<close>

record termux_dev =
  handle :: bool
  eps :: "nat option"
  ctx :: bool

text \<open>\<open>TermuxUsbSlcan.close\<close>: three guarded calls.\<close>

definition termux_dev_close :: "termux_dev \<Rightarrow> (lib_call \<Rightarrow> outcome) \<Rightarrow> lib_call list \<times> outcome" where
  "termux_dev_close d env =
     (let c1 = (if handle d \<and> eps d \<noteq> None then [UsbReleaseInterface] else []);
          r1 = try_pass (if c1 = [] then Returns else env UsbReleaseInterface)
      in case r1 of
           Raises e \<Rightarrow> (c1, Raises e)
         | Returns \<Rightarrow>
             (let c2 = (if handle d then [UsbClose] else []);
                  r2 = try_pass (if c2 = [] then Returns else env UsbClose)
              in case r2 of
                   Raises e \<Rightarrow> (c1 @ c2, Raises e)
                 | Returns \<Rightarrow>
                     (let c3 = (if ctx d then [UsbExit] else []);
                          r3 = try_pass (if c3 = [] then Returns else env UsbExit)
                      in (c1 @ c2 @ c3, r3))))"

record termux_transport =
  tu_bitrate :: int
  dev :: "termux_dev option"
  tu_tx_errors :: nat

definition hex_digit :: "nat \<Rightarrow> char" where
  "hex_digit n = ''0123456789ABCDEF'' ! (n mod 16)"

fun to_hex :: "nat \<Rightarrow> string" where
  "to_hex n = (if n < 16 then [hex_digit n] else to_hex (n div 16) @ [hex_digit n])"

definition zero_pad :: "nat \<Rightarrow> string \<Rightarrow> string" where
  "zero_pad w s = replicate (w - length s) CHR ''0'' @ s"

text \<open>\<open>payload.hex().upper()\<close>\<close>

definition bytes_hex :: "nat list \<Rightarrow> string" where
  "bytes_hex payload = concat (map (\<lambda>b. zero_pad 2 (to_hex b)) payload)"

text \<open>\<open>"%08X" % n\<close>: the sign counts in the width.\<close>

definition hex_width :: "nat \<Rightarrow> int \<Rightarrow> string" where
  "hex_width w n = (if n < 0 then CHR ''-'' # zero_pad (w - 1) (to_hex (nat (- n)))
                    else zero_pad w (to_hex (nat n)))"

definition termux_frame :: "int \<Rightarrow> nat list \<Rightarrow> bool \<Rightarrow> string" where
  "termux_frame fid payload is_extended =
     (let dlc = length payload
      in if is_extended
         then ''T'' @ hex_width 8 fid @ to_hex dlc @ bytes_hex payload @ [CHR 0x0D]
         else ''t'' @ hex_width 3 (fid mod 2048) @ to_hex dlc @ bytes_hex payload @ [CHR 0x0D])"

text \<open>
  \<open>TermuxUsbSlcanTransport.send\<close>; \<open>write_ascii\<close> is what \<open>self.dev.write_ascii(frame)\<close> does
  with the frame.
\<close>

definition termux_send ::
  "termux_transport \<Rightarrow> (string \<Rightarrow> outcome) \<Rightarrow> int \<Rightarrow> nat list \<Rightarrow> bool
     \<Rightarrow> termux_transport \<times> (py_error + bool)" where
  "termux_send t write_ascii fid payload is_extended =
     (if dev t = None then (t, Inl RuntimeError)
      else (case write_ascii (termux_frame fid payload is_extended) of
              Returns \<Rightarrow> (t, Inr True)
            | Raises e \<Rightarrow> (t\<lparr>tu_tx_errors := tu_tx_errors t + 1\<rparr>, Inl e)))"

definition termux_close ::
  "termux_transport \<Rightarrow> (lib_call \<Rightarrow> outcome) \<Rightarrow> termux_transport \<times> lib_call list \<times> outcome" where
  "termux_close t env =
     (case dev t of
        None \<Rightarrow> (t, [], Returns)
      | Some d \<Rightarrow>
          (case termux_dev_close d env of
             (calls, Raises e) \<Rightarrow> (t, calls, Raises e)
           | (calls, Returns) \<Rightarrow> (t\<lparr>dev := None\<rparr>, calls, Returns)))"

subsection \<open>PythonCanTransport\<close>

text \<open>
  \<open>backend\<close> is the attribute that \<open>getattr(self, "backend", None)\<close> reads; the class never
  assigns it.
\<close>

record python_can_transport =
  pc_iface :: string
  pc_channel :: int
  pc_bitrate :: int
  bus :: "nat option"
  termux_usb :: "termux_dev option"
  backend :: "string option"
  pc_tx_errors :: nat

text \<open>
  The environment of one \<open>send\<close>: what building the \<open>can.Message\<close> does, what
  \<open>self.bus.send(msg)\<close> does and what \<open>self.termux_usb.write_ascii(frame)\<close> does.
\<close>

record pc_send_env =
  msg_ctor :: outcome
  bus_send :: outcome
  usb_write :: "string \<Rightarrow> outcome"

text \<open>The handlers of \<open>send\<close>: only \<open>can.CanError\<close> is caught.\<close>

definition pc_on_error :: "python_can_transport \<Rightarrow> py_error \<Rightarrow> python_can_transport \<times> (py_error + bool)" where
  "pc_on_error t e =
     (if e = CanError then (t\<lparr>pc_tx_errors := pc_tx_errors t + 1\<rparr>, Inr False)
      else (t, Inl e))"

definition python_can_send ::
  "python_can_transport \<Rightarrow> pc_send_env \<Rightarrow> int \<Rightarrow> nat list \<Rightarrow> bool
     \<Rightarrow> python_can_transport \<times> (py_error + bool)" where
  "python_can_send t env fid payload is_extended =
     (if bus t = None then (t, Inl RuntimeError)
      else (case msg_ctor env of
              Raises e \<Rightarrow> (t, Inl e)
            | Returns \<Rightarrow>
                if backend t = Some ''termux-usb''
                then (if termux_usb t = None then pc_on_error t RuntimeError
                      else (case usb_write env (termux_frame fid payload is_extended) of
                              Returns \<Rightarrow> (t, Inr True)
                            | Raises e \<Rightarrow> pc_on_error t e))
                else (case bus_send env of
                        Returns \<Rightarrow> (t, Inr True)
                      | Raises e \<Rightarrow> pc_on_error t e)))"

definition python_can_close ::
  "python_can_transport \<Rightarrow> (lib_call \<Rightarrow> outcome)
     \<Rightarrow> python_can_transport \<times> lib_call list \<times> outcome" where
  "python_can_close t env =
     (if bus t = None then (t, [], Returns)
      else (case try_pass (env BusShutdown) of
              Raises e \<Rightarrow> (t, [BusShutdown], Raises e)
            | Returns \<Rightarrow>
                (case try_pass (env BusCloseCall) of
                   Raises e \<Rightarrow> (t, [BusShutdown, BusCloseCall], Raises e)
                 | Returns \<Rightarrow> (t\<lparr>bus := None\<rparr>, [BusShutdown, BusCloseCall], Returns))))"

subsection \<open>SlcanSerialTransport\<close>

record slcan_transport =
  sl_port :: string
  sl_bitrate :: int
  serial_baud :: int
  skip_bitrate :: bool
  ser :: "nat option"
  sl_tx_errors :: nat

definition format_frame :: "int \<Rightarrow> nat list \<Rightarrow> bool \<Rightarrow> py_error + string" where
  "format_frame fid payload is_extended =
     (let dlc = length payload
      in if 8 < dlc then Inl ValueError
         else if is_extended
         then (if 0x1FFFFFFF < fid \<or> fid < 0 then Inl ValueError
               else Inr (''T'' @ zero_pad 8 (to_hex (nat fid)) @ to_hex dlc @ bytes_hex payload))
         else (if 0x7FF < fid \<or> fid < 0 then Inl ValueError
               else Inr (''t'' @ zero_pad 3 (to_hex (nat fid)) @ to_hex dlc @ bytes_hex payload)))"

text \<open>
  The environment of one \<open>_write_cmd\<close>: what \<open>ser.write\<close> followed by \<open>ser.flush\<close> does with
  the bytes, and the bytes that \<open>_read_response\<close> returns (it swallows its own exceptions).
  A response holding the byte 7 is an error response.
\<close>

record ser_env =
  ser_write :: "string \<Rightarrow> outcome"
  response :: "nat list"

definition write_cmd :: "slcan_transport \<Rightarrow> ser_env \<Rightarrow> string \<Rightarrow> outcome" where
  "write_cmd t env cmd =
     (if ser t = None then Raises RuntimeError
      else (case ser_write env (cmd @ [CHR 0x0D]) of
              Raises e \<Rightarrow> Raises e
            | Returns \<Rightarrow> if 7 \<in> set (response env) then Raises RuntimeError else Returns))"

definition slcan_send ::
  "slcan_transport \<Rightarrow> ser_env \<Rightarrow> int \<Rightarrow> nat list \<Rightarrow> bool
     \<Rightarrow> slcan_transport \<times> (py_error + bool)" where
  "slcan_send t env fid payload is_extended =
     (if ser t = None then (t, Inl RuntimeError)
      else (case format_frame fid payload is_extended of
              Inl e \<Rightarrow> (t, Inl e)
            | Inr frame \<Rightarrow>
                (case write_cmd t env frame of
                   Returns \<Rightarrow> (t, Inr True)
                 | Raises e \<Rightarrow> (t\<lparr>sl_tx_errors := sl_tx_errors t + 1\<rparr>, Inr False))))"

definition slcan_close ::
  "slcan_transport \<Rightarrow> ser_env \<Rightarrow> (lib_call \<Rightarrow> outcome)
     \<Rightarrow> slcan_transport \<times> lib_call list \<times> outcome" where
  "slcan_close t senv env =
     (if ser t = None then (t, [], Returns)
      else (case try_pass (write_cmd t senv ''C'') of
              Raises e \<Rightarrow> (t, [SerWrite ''C''], Raises e)
            | Returns \<Rightarrow>
                (case try_pass (env SerClose) of
                   Raises e \<Rightarrow> (t, [SerWrite ''C'', SerClose], Raises e)
                 | Returns \<Rightarrow> (t\<lparr>ser := None\<rparr>, [SerWrite ''C'', SerClose], Returns))))"

section \<open>Transmission loop (cli_runner.py)\<close>









text \<open>
  What the loop does to the outside is recorded in a trace. \<open>sends_attempted\<close> counts the
  calls of \<open>bus.send\<close> and indexes the environment; the other fields are the variables of
  \<open>main\<close> that the send path reads and writes.
\<close>

datatype action = ActSend int | ActReopenBegin | ActClose | ActHardReset
  | ActOpen bool | ActSleep real

record session =
  consec_errors :: nat
  backoff :: real
  tx_frames :: nat
  send_exception_count :: nat
  stop_evt :: bool
  sends_attempted :: nat
  trace :: "action list"

definition initial_session :: session where
  "initial_session =
     \<lparr>consec_errors = 0, backoff = 1 / 2, tx_frames = 0, send_exception_count = 0,
      stop_evt = False, sends_attempted = 0, trace = []\<rparr>"

text \<open>
  What one call of \<open>bus.send\<close> does, and what one iteration of the reopen loop sees: the
  stop file is there, or \<open>bus.open()\<close> raises, or it returns.
\<close>

datatype send_result = SendTrue | SendFalse | SendRaised

datatype reopen_obs = StopFile | OpenRaised | OpenOk

text \<open>
  The reopen loop \<open>while not stop_evt.is_set()\<close>. It runs for as long as \<open>bus.open()\<close>
  raises and no stop is seen, so it need not return: \<open>None\<close> is the loop that never ends.
  The result is the flag \<open>reopened\<close> and the session.
\<close>

partial_function (option) reopen_loop ::
  "(nat \<Rightarrow> reopen_obs) \<Rightarrow> nat \<Rightarrow> session \<Rightarrow> (bool \<times> session) option" where
  "reopen_loop obs i st =
     (if stop_evt st then Some (False, st)
      else (case obs i of
              StopFile \<Rightarrow> Some (False, st\<lparr>stop_evt := True\<rparr>)
            | OpenOk \<Rightarrow>
                Some (True, st\<lparr>consec_errors := 0, backoff := 1 / 2,
                                trace := trace st @ [ActOpen True]\<rparr>)
            | OpenRaised \<Rightarrow>
                reopen_loop obs (Suc i)
                  (st\<lparr>trace := trace st @ [ActOpen False, ActSleep (backoff st)],
                      backoff := min (backoff st * 2) 2\<rparr>)))"

text \<open>
  The USB hard reset before the reopen loop: only with \<open>--hardkill-on-stall\<close> on gs_usb; the
  sleep of one second is skipped when the reset raises.
\<close>

datatype hardkill = NoHardkill | HardkillOk | HardkillRaises

definition hard_reset_actions :: "hardkill \<Rightarrow> action list" where
  "hard_reset_actions hk =
     (case hk of
        NoHardkill \<Rightarrow> []
      | HardkillOk \<Rightarrow> [ActHardReset, ActSleep 1]
      | HardkillRaises \<Rightarrow> [ActHardReset])"

text \<open>
  What the loop does with the result of one \<open>bus.send\<close>. The flag returned is False at the
  \<open>break\<close> that follows a reopen loop left without reopening.
\<close>

definition handle_send ::
  "hardkill \<Rightarrow> (nat \<Rightarrow> reopen_obs) \<Rightarrow> send_result \<Rightarrow> session \<Rightarrow> (bool \<times> session) option" where
  "handle_send hk obs res st =
     (if res = SendTrue
      then Some (True, st\<lparr>tx_frames := tx_frames st + 1, consec_errors := 0, backoff := 1 / 2\<rparr>)
      else (let st1 = st\<lparr>send_exception_count :=
                           (if res = SendRaised then send_exception_count st + 1
                            else send_exception_count st),
                         consec_errors := consec_errors st + 1\<rparr>
            in if 50 \<le> consec_errors st1
               then reopen_loop obs 0
                      (st1\<lparr>trace := trace st1 @ [ActReopenBegin, ActClose] @ hard_reset_actions hk\<rparr>)
               else Some (True, st1)))"




text \<open>The results of successive sends, fed to the loop one after the other.\<close>

fun after_sends ::
  "hardkill \<Rightarrow> (send_result \<times> (nat \<Rightarrow> reopen_obs)) list \<Rightarrow> session \<Rightarrow> (bool \<times> session) option" where
  "after_sends hk [] st = Some (True, st)"
| "after_sends hk ((res, obs) # rest) st =
     (case handle_send hk obs res st of
        None \<Rightarrow> None
      | Some (continue, st1) \<Rightarrow>
          if continue then after_sends hk rest st1 else Some (False, st1))"

definition sent_ids :: "action list \<Rightarrow> int list" where
  "sent_ids tr = concat (map (\<lambda>a. case a of ActSend i \<Rightarrow> [i] | _ \<Rightarrow> []) tr)"

text \<open>
  The actions of \<open>k\<close> failed attempts to reopen, starting from the floor: the \<open>i\<close>-th is
  followed by a sleep of \<open>min(0.5 * 2^i, 2.0)\<close> seconds.
\<close>

definition reopen_trace :: "nat \<Rightarrow> action list" where
  "reopen_trace k = concat (map (\<lambda>i. [ActOpen False, ActSleep (min (2 ^ i / 2) 2)]) [0..<k])"


section \<open>Example data\<close>

text \<open>
  The message \<open>megasquirt_dash0\<close> (frame 1512) with its four signals as the loader expects
  them (\<open>EXPECTED_SIGNAL_META\<close>), and a bit packer that returns eight zero bytes.
\<close>

definition map_sig :: signal where
  "map_sig = \<lparr>sig_name = ''map'', sig_start = 7, sig_length = 16, byte_order = ''big_endian'',
          is_signed = True, scale = PyF dbl_0_1, offset = PyI 0\<rparr>"

definition rpm :: signal where
  "rpm = \<lparr>sig_name = ''rpm'', sig_start = 23, sig_length = 16, byte_order = ''big_endian'',
          is_signed = False, scale = PyI 1, offset = PyI 0\<rparr>"

definition clt :: signal where
  "clt = \<lparr>sig_name = ''clt'', sig_start = 39, sig_length = 16, byte_order = ''big_endian'',
          is_signed = True, scale = PyF dbl_0_1, offset = PyI 0\<rparr>"

definition tps :: signal where
  "tps = \<lparr>sig_name = ''tps'', sig_start = 55, sig_length = 16, byte_order = ''big_endian'',
          is_signed = True, scale = PyF dbl_0_1, offset = PyI 0\<rparr>"

definition dash0 :: message where
  "dash0 = \<lparr>frame_id = 1512, msg_name = ''megasquirt_dash0'', signals = [map_sig, rpm, clt, tps],
            msg_length = 8, is_extended_frame = False\<rparr>"

definition zero_pack :: packer where
  "zero_pack msg used_phys = Inr (replicate 8 0)"

text \<open>The other four messages of the layout.\<close>

definition be_signal :: "string \<Rightarrow> int \<Rightarrow> int \<Rightarrow> bool \<Rightarrow> pynum \<Rightarrow> signal" where
  "be_signal n st len signed sc =
     \<lparr>sig_name = n, sig_start = st, sig_length = len, byte_order = ''big_endian'',
      is_signed = signed, scale = sc, offset = PyI 0\<rparr>"

definition dash1 :: message where
  "dash1 = \<lparr>frame_id = 1513, msg_name = ''megasquirt_dash1'',
            signals = [be_signal ''pw1'' 7 16 False (PyF dbl_0_001), be_signal ''pw2'' 23 16 False (PyF dbl_0_001),
                       be_signal ''mat'' 39 16 True (PyF dbl_0_1), be_signal ''adv_deg'' 55 16 True (PyF dbl_0_1)],
            msg_length = 8, is_extended_frame = False\<rparr>"

definition dash2 :: message where
  "dash2 = \<lparr>frame_id = 1514, msg_name = ''megasquirt_dash2'',
            signals = [be_signal ''afrtgt1'' 7 8 False (PyF dbl_0_1), be_signal ''AFR1'' 15 8 False (PyF dbl_0_1),
                       be_signal ''egocor1'' 23 16 True (PyF dbl_0_1), be_signal ''egt1'' 39 16 True (PyF dbl_0_1),
                       be_signal ''pwseq1'' 55 16 True (PyF dbl_0_001)],
            msg_length = 8, is_extended_frame = False\<rparr>"

definition dash3 :: message where
  "dash3 = \<lparr>frame_id = 1515, msg_name = ''megasquirt_dash3'',
            signals = [be_signal ''batt'' 7 16 True (PyF dbl_0_1), be_signal ''sensors1'' 23 16 True (PyF dbl_0_01),
                       be_signal ''sensors2'' 39 16 True (PyF dbl_0_01), be_signal ''knk_rtd'' 55 8 False (PyF dbl_0_1)],
            msg_length = 8, is_extended_frame = False\<rparr>"

definition dash4 :: message where
  "dash4 = \<lparr>frame_id = 1516, msg_name = ''megasquirt_dash4'',
            signals = [be_signal ''VSS1'' 7 16 False (PyF dbl_0_1), be_signal ''tc_retard'' 23 16 True (PyF dbl_0_1),
                       be_signal ''launch_timing'' 39 16 True (PyF dbl_0_1)],
            msg_length = 8, is_extended_frame = False\<rparr>"

text \<open>
  Modelled from the spec: the DBC file that \<open>load_db\<close> pins by \<open>DBC_SHA256\<close> is an asset
  outside the sources. Its database is taken to hold the five messages above, with the
  signals that the loader expects, listed by ascending frame id as the spec has it.
\<close>

definition listed_db :: database where
  "listed_db = \<lparr>messages = [dash0, dash1, dash2, dash3, dash4]\<rparr>"


text \<open>
  Reopen loops whose first \<open>k\<close> attempts raise, followed by a success or by the stop file.
\<close>

definition opens_after :: "nat \<Rightarrow> nat \<Rightarrow> reopen_obs" where
  "opens_after k i = (if i < k then OpenRaised else OpenOk)"

definition stops_after :: "nat \<Rightarrow> nat \<Rightarrow> reopen_obs" where
  "stops_after k i = (if i < k then OpenRaised else StopFile)"

text \<open>
  A scheduler at 50 Hz whose deadline, 2.0, lies three seconds before the clock reading of
  the call, and a call one hundredth of a second later.
\<close>

definition late_scheduler :: scheduler where
  "late_scheduler = \<lparr>hz = 50, dt = 1 / 50, s_start = Some 1, s_next = Some 2\<rparr>"

definition late_clock :: clock where
  "late_clock = \<lparr>t_start = 5, t_now = 5, t_woke = 5\<rparr>"

definition soon_clock :: clock where
  "soon_clock = \<lparr>t_start = 5, t_now = 501 / 100, t_woke = 502 / 100\<rparr>"

text \<open>Open transports, and links on which every write fails.\<close>

definition open_termux :: termux_transport where
  "open_termux = \<lparr>tu_bitrate = 500000, dev = Some \<lparr>handle = True, eps = Some 0, ctx = True\<rparr>,
                  tu_tx_errors = 0\<rparr>"

definition failing_write :: "string \<Rightarrow> outcome" where
  "failing_write frame = Raises RuntimeError"

definition open_python_can :: python_can_transport where
  "open_python_can = \<lparr>pc_iface = ''virtual'', pc_channel = 0, pc_bitrate = 500000, bus = Some 0,
                      termux_usb = None, backend = None, pc_tx_errors = 0\<rparr>"

definition busy_bus :: pc_send_env where
  "busy_bus = \<lparr>msg_ctor = Returns, bus_send = Raises CanError, usb_write = failing_write\<rparr>"

definition open_slcan :: slcan_transport where
  "open_slcan = \<lparr>sl_port = ''COM12'', sl_bitrate = 500000, serial_baud = 115200,
                 skip_bitrate = False, ser = Some 0, sl_tx_errors = 0\<rparr>"

definition dead_port :: ser_env where
  "dead_port = \<lparr>ser_write = failing_write, response = []\<rparr>"


section \<open>Properties of the codec\<close>

subsection \<open>Rounding to a double\<close>


lemma round_half_even_int [simp]: "round_half_even (of_int n) = n"
  by (simp add: round_half_even_def)

lemma round_half_even_err: "\<bar>of_int (round_half_even x) - x\<bar> \<le> 1 / 2"
  unfolding round_half_even_def Let_def by (auto; linarith)

lemma round_half_even_ge: "of_int a \<le> x \<Longrightarrow> a \<le> round_half_even x"
  unfolding round_half_even_def Let_def by (auto simp: le_floor_iff; linarith)

lemma round_half_even_le:
  assumes "x \<le> of_int b"
  shows "round_half_even x \<le> b"
proof (cases "\<lfloor>x\<rfloor> = b")
  case True
  with assms have "x = of_int b"
    by (metis of_int_floor_le antisym)
  then show ?thesis by simp
next
  case False
  moreover have "\<lfloor>x\<rfloor> \<le> b" using assms by (simp add: floor_le_iff)
  ultimately have "\<lfloor>x\<rfloor> + 1 \<le> b" by linarith
  then show ?thesis unfolding round_half_even_def Let_def by auto
qed

lemma floor_log2_eq:
  assumes "0 < a" and "2 powi e \<le> a" and "a < 2 powi (e + 1)"
  shows "\<lfloor>log 2 a\<rfloor> = e"
proof -
  have "(2::real) powr real_of_int e = 2 powi e"
    by (simp add: powr_real_of_int')
  moreover have "(2::real) powr (real_of_int e + 1) = 2 powi (e + 1)"
    using powr_real_of_int' [of "2::real" "e + 1"] by simp
  ultimately show ?thesis
    using assms by (subst floor_log_eq_powr_iff) simp_all
qed

lemma pow_floor_log2_le:
  assumes "0 < a"
  shows "2 powi \<lfloor>log 2 a\<rfloor> \<le> a" and "a < 2 powi (\<lfloor>log 2 a\<rfloor> + 1)"
proof -
  have "(2::real) powr real_of_int \<lfloor>log 2 a\<rfloor> \<le> a \<and> a < 2 powr real_of_int (\<lfloor>log 2 a\<rfloor> + 1)"
    using assms floor_log_eq_powr_iff [of a 2 "\<lfloor>log 2 a\<rfloor>"] by simp
  moreover have "(2::real) powr real_of_int (\<lfloor>log 2 a\<rfloor> + 1) = 2 powi (\<lfloor>log 2 a\<rfloor> + 1)"
    by (rule powr_real_of_int') simp_all
  moreover have "(2::real) powr real_of_int \<lfloor>log 2 a\<rfloor> = 2 powi \<lfloor>log 2 a\<rfloor>"
    by (rule powr_real_of_int') simp_all
  ultimately show "2 powi \<lfloor>log 2 a\<rfloor> \<le> a" and "a < 2 powi (\<lfloor>log 2 a\<rfloor> + 1)"
    by simp_all
qed

lemma ulp_exp_eq:
  assumes "2 powi e \<le> \<bar>x\<bar>" and "\<bar>x\<bar> < 2 powi (e + 1)"
  shows "ulp_exp x = max e (- 1022) - 52"
proof -
  have "0 < \<bar>x\<bar>" using assms(1) by (smt (verit) zero_less_power_int)
  then have "x \<noteq> 0" by simp
  moreover have "\<lfloor>log 2 \<bar>x\<bar>\<rfloor> = e"
    using \<open>0 < \<bar>x\<bar>\<close> assms by (rule floor_log2_eq)
  ultimately show ?thesis by (simp add: ulp_exp_def)
qed

lemma round_half_even_0 [simp]: "round_half_even 0 = 0"
  by (simp add: round_half_even_def)

lemma rnd_val_0 [simp]: "rnd_val 0 = 0"
  by (simp add: rnd_val_def)

lemma fl_0 [simp]: "fl 0 = Finite 0"
  by (simp add: fl_def)

lemma rnd_val_eval:
  assumes "2 powi e \<le> \<bar>x\<bar>" and "\<bar>x\<bar> < 2 powi (e + 1)" and "- 1022 \<le> e"
  shows "rnd_val x = of_int (round_half_even (x / 2 powi (e - 52))) * 2 powi (e - 52)"
  using ulp_exp_eq [OF assms(1,2)] assms(3) by (simp add: rnd_val_def max_def)

lemma rnd_val_ulp: "\<bar>rnd_val x - x\<bar> \<le> 2 powi ulp_exp x / 2"
proof -
  define u :: real where "u = 2 powi ulp_exp x"
  have u: "0 < u" by (simp add: u_def)
  have "rnd_val x - x = (of_int (round_half_even (x / u)) - x / u) * u"
    using u by (simp add: rnd_val_def u_def algebra_simps)
  then have "\<bar>rnd_val x - x\<bar> = \<bar>of_int (round_half_even (x / u)) - x / u\<bar> * u"
    using u by (simp add: abs_mult)
  also have "\<dots> \<le> 1 / 2 * u"
    using u round_half_even_err [of "x / u"] by (intro mult_right_mono) simp_all
  finally show ?thesis by (simp add: u_def)
qed

lemma ulp_le:
  "2 powi ulp_exp x \<le> \<bar>x\<bar> / 2 ^ 52 + 1 / 2 ^ 1074"
proof (cases "x = 0")
  case True
  then show ?thesis by (simp add: ulp_exp_def power_int_minus_divide)
next
  case False
  then have pos: "0 < \<bar>x\<bar>" by simp
  define e where "e = \<lfloor>log 2 \<bar>x\<bar>\<rfloor>"
  have le: "2 powi e \<le> \<bar>x\<bar>" unfolding e_def using pos by (rule pow_floor_log2_le)
  show ?thesis
  proof (cases "- 1022 \<le> e")
    case True
    then have "max e (- 1022) = e" by simp
    then have "ulp_exp x = e - 52" using False unfolding ulp_exp_def e_def by simp
    then have "(2::real) powi ulp_exp x = 2 powi e / 2 ^ 52"
      by (simp add: power_int_diff)
    also have "\<dots> \<le> \<bar>x\<bar> / 2 ^ 52" using le by (simp add: divide_right_mono)
    finally show ?thesis by (smt (verit) zero_less_power divide_pos_pos)
  next
    case b: False
    then have "max e (- 1022) = - 1022" by simp
    then have "ulp_exp x = - 1074" using False unfolding ulp_exp_def e_def by simp
    then have "(2::real) powi ulp_exp x = 1 / 2 ^ 1074" by (simp add: power_int_minus_divide)
    then show ?thesis by simp
  qed
qed

lemma rnd_val_err: "\<bar>rnd_val x - x\<bar> \<le> \<bar>x\<bar> / 2 ^ 53 + 1 / 2 ^ 1075"
proof -
  have "2 powi ulp_exp x / 2 \<le> (\<bar>x\<bar> / 2 ^ 52 + 1 / 2 ^ 1074) / 2"
    using ulp_le [of x] by (rule divide_right_mono) simp
  with rnd_val_ulp [of x]
  have "\<bar>rnd_val x - x\<bar> \<le> (\<bar>x\<bar> / 2 ^ 52 + 1 / 2 ^ 1074) / 2"
    by (rule order_trans)
  also have "\<dots> = \<bar>x\<bar> / 2 ^ 53 + 1 / 2 ^ 1075" by simp
  finally show ?thesis .
qed


lemma rnd_val_small:
  assumes "\<bar>x\<bar> \<le> 2 ^ 27"
  shows "\<bar>rnd_val x - x\<bar> \<le> 1 / 2 ^ 25"
proof -
  have "\<bar>x\<bar> / 2 ^ 53 \<le> 2 ^ 27 / 2 ^ 53"
    using assms by (rule divide_right_mono) simp
  moreover have "(2::real) ^ 27 / 2 ^ 53 + 1 / 2 ^ 1075 \<le> 1 / 2 ^ 25" by simp
  ultimately show ?thesis using rnd_val_err [of x] by linarith
qed

lemma rnd_val_bound:
  assumes "\<bar>x\<bar> \<le> 2 ^ 1023"
  shows "\<bar>rnd_val x\<bar> < 2 ^ 1024"
proof -
  have "\<bar>x\<bar> / 2 ^ 53 \<le> 2 ^ 1023 / 2 ^ 53"
    using assms by (rule divide_right_mono) simp
  moreover have "(2::real) ^ 1023 + 2 ^ 1023 / 2 ^ 53 + 1 / 2 ^ 1075 < 2 ^ 1024" by simp
  ultimately show ?thesis using rnd_val_err [of x] assms by linarith
qed

lemma fl_Finite: "\<bar>x\<bar> \<le> 2 ^ 1023 \<Longrightarrow> fl x = Finite (rnd_val x)"
  using rnd_val_bound [of x] by (simp add: fl_def Let_def abs_less_iff not_le)

lemma fl_PosInf:
  assumes "2 ^ 1025 \<le> x"
  shows "fl x = PosInf"
proof -
  have "x / 2 ^ 53 + 1 / 2 ^ 1075 \<le> x / 2"
  proof -
    have "x / 2 ^ 53 \<le> x / 4" using assms by (simp add: field_simps)
    moreover have "1 / 2 ^ 1075 \<le> x / 4" using assms by (simp add: field_simps)
    ultimately show ?thesis by linarith
  qed
  moreover have "\<bar>x\<bar> = x" using assms by (smt (verit) zero_less_power)
  ultimately have "x / 2 \<le> rnd_val x" using rnd_val_err [of x] by linarith
  moreover have "(2::real) ^ 1024 \<le> x / 2" using assms by simp
  ultimately show ?thesis by (simp add: fl_def Let_def)
qed

lemma rnd_val_int:
  assumes "\<bar>n\<bar> < 2 ^ 53"
  shows "rnd_val (of_int n) = of_int n"
proof (cases "n = 0")
  case True
  then show ?thesis by simp
next
  case False
  define x :: real where "x = of_int n"
  define e where "e = \<lfloor>log 2 \<bar>x\<bar>\<rfloor>"
  have pos: "0 < \<bar>x\<bar>" using False by (simp add: x_def)
  have lo: "2 powi e \<le> \<bar>x\<bar>" and hi: "\<bar>x\<bar> < 2 powi (e + 1)"
    unfolding e_def using pos by (rule pow_floor_log2_le)+
  have "\<bar>x\<bar> < 2 ^ 53" using assms unfolding x_def
    by (metis of_int_abs of_int_less_numeral_power_cancel_iff)
  then have "(2::real) powi e < 2 powi 53" using lo by simp
  then have e53: "e < 53" by (rule power_int_le_imp_less_exp [rotated]) simp_all
  have "1 \<le> \<bar>x\<bar>" using False unfolding x_def
    by (metis of_int_abs of_int_1_le_iff abs_ge_zero int_one_le_iff_zero_less zero_less_abs_iff)
  then have one: "1 < (2::real) powi (e + 1)" using hi by simp
  have e0: "0 \<le> e"
  proof (rule ccontr)
    assume "\<not> 0 \<le> e"
    then have "e + 1 \<le> 0" by simp
    then have "(2::real) powi (e + 1) \<le> 2 powi 0" by (intro power_int_increasing) simp_all
    with one show False by simp
  qed
  define k where "k = nat (52 - max e (- 1022))"
  have u: "ulp_exp x = - int k" using e53 e0 ulp_exp_eq [OF lo hi]
    by (simp add: k_def)
  have p: "(2::real) powi ulp_exp x = 1 / 2 ^ k"
    unfolding u by (simp add: power_int_minus field_simps)
  have "x / (1 / 2 ^ k) = of_int (n * 2 ^ k)"
    by (simp add: x_def)
  then have "round_half_even (x / (1 / 2 ^ k)) = n * 2 ^ k"
    by (simp only: round_half_even_int)
  then have "rnd_val x = of_int (n * 2 ^ k) * (1 / 2 ^ k)"
    unfolding rnd_val_def p by simp
  also have "\<dots> = x" by (simp add: x_def)
  finally show ?thesis by (simp add: x_def)
qed

lemma fl_eval:
  assumes "2 powi e \<le> \<bar>x\<bar>" and "\<bar>x\<bar> < 2 powi (e + 1)" and "- 1022 \<le> e" and "e \<le> 1022"
  shows "fl x = Finite (of_int (round_half_even (x / 2 powi (e - 52))) * 2 powi (e - 52))"
proof -
  have "(2::real) powi (e + 1) \<le> 2 powi 1023"
    using assms(4) by (intro power_int_increasing) simp_all
  then have "\<bar>x\<bar> \<le> 2 ^ 1023" using assms(2) by simp
  then show ?thesis
    using rnd_val_eval [OF assms(1,2,3)] by (simp add: fl_Finite)
qed

lemma fl_int: "\<bar>n\<bar> < 2 ^ 53 \<Longrightarrow> fl (of_int n) = Finite (of_int n)"
proof -
  assume a: "\<bar>n\<bar> < 2 ^ 53"
  then have "\<bar>real_of_int n\<bar> < 2 ^ 53"
    by (metis of_int_abs of_int_less_numeral_power_cancel_iff)
  moreover have "(2::real) ^ 53 \<le> 2 ^ 1023" by simp
  ultimately have "\<bar>real_of_int n\<bar> \<le> 2 ^ 1023" by linarith
  then show ?thesis using a by (simp add: fl_Finite rnd_val_int)
qed

lemma round_half_even_lt:
  assumes "x < of_int b + 1 / 2"
  shows "round_half_even x \<le> b"
proof -
  have "\<lfloor>x\<rfloor> \<le> b" using assms by (simp add: floor_le_iff)
  moreover have "\<lfloor>x\<rfloor> = b \<Longrightarrow> x - of_int \<lfloor>x\<rfloor> < 1 / 2" using assms by simp
  ultimately show ?thesis
    unfolding round_half_even_def Let_def by (auto; linarith)
qed

lemma round_half_even_gt:
  assumes "of_int a - 1 / 2 < x"
  shows "a \<le> round_half_even x"
proof -
  have "a - 1 \<le> \<lfloor>x\<rfloor>" using assms by (simp add: le_floor_iff)
  moreover have "\<lfloor>x\<rfloor> = a - 1 \<Longrightarrow> 1 / 2 < x - of_int \<lfloor>x\<rfloor>" using assms by simp
  ultimately show ?thesis
    unfolding round_half_even_def Let_def by (auto; linarith)
qed

lemma int_to_float_small: "\<bar>n\<bar> < 2 ^ 53 \<Longrightarrow> int_to_float n = Inr (of_int n)"
  by (simp add: int_to_float_def fl_int)

lemma int_to_float_0 [simp]: "int_to_float 0 = Inr 0"
  using int_to_float_small [of 0] by simp

lemma int_to_float_1 [simp]: "int_to_float 1 = Inr 1"
  using int_to_float_small [of 1] by simp

lemma int_to_float_numeral:
  "\<bar>numeral k :: int\<bar> < 2 ^ 53 \<Longrightarrow> int_to_float (numeral k) = Inr (numeral k)"
  "\<bar>numeral k :: int\<bar> < 2 ^ 53 \<Longrightarrow> int_to_float (- numeral k) = Inr (- numeral k)"
  using int_to_float_small [of "numeral k"] int_to_float_small [of "- numeral k"] by simp_all

lemma fl_numeral:
  "\<bar>numeral k :: int\<bar> < 2 ^ 53 \<Longrightarrow> fl (numeral k) = Finite (numeral k)"
  "\<bar>numeral k :: int\<bar> < 2 ^ 53 \<Longrightarrow> fl (- numeral k) = Finite (- numeral k)"
  using fl_int [of "numeral k"] fl_int [of "- numeral k"] by simp_all

lemma round_half_even_numeral [simp]:
  "round_half_even (numeral k) = numeral k"
  "round_half_even (- numeral k) = - numeral k"
  using round_half_even_int [of "numeral k"] round_half_even_int [of "- numeral k"] by simp_all

lemma to_float_num_val:
  assumes "\<bar>num_val v\<bar> < 2 ^ 53"
  shows "to_float v = Inr (num_val v)"
proof (cases v)
  case (PyI i)
  with assms have "\<bar>real_of_int i\<bar> < 2 ^ 53" by simp
  then have "\<bar>i\<bar> < 2 ^ 53"
    by (metis of_int_abs of_int_less_numeral_power_cancel_iff)
  then show ?thesis using PyI by (simp add: int_to_float_small)
next
  case (PyF r)
  then show ?thesis by simp
qed

text \<open>The literals \<open>0.1\<close>, \<open>0.01\<close> and \<open>0.001\<close> denote the doubles nearest to them.\<close>

lemma dbl_0_1_nearest: "fl (1 / 10) = Finite dbl_0_1"
  using fl_eval [of "- 4" "1 / 10"]
  by (simp add: round_half_even_def power_int_minus dbl_0_1_def)

lemma dbl_0_01_nearest: "fl (1 / 100) = Finite dbl_0_01"
  using fl_eval [of "- 7" "1 / 100"]
  by (simp add: round_half_even_def power_int_minus dbl_0_01_def)

lemma dbl_0_001_nearest: "fl (1 / 1000) = Finite dbl_0_001"
  using fl_eval [of "- 10" "1 / 1000"]
  by (simp add: round_half_even_def power_int_minus dbl_0_001_def)

lemma dbl_bounds:
  "1 / 1024 \<le> dbl_0_1" "dbl_0_1 \<le> 1"
  "1 / 1024 \<le> dbl_0_01" "dbl_0_01 \<le> 1"
  "1 / 1024 \<le> dbl_0_001" "dbl_0_001 \<le> 1"
  by (simp_all add: dbl_0_1_def dbl_0_01_def dbl_0_001_def)

lemma dbl_0_1_nz [simp]: "dbl_0_1 \<noteq> 0" "dbl_0_01 \<noteq> 0" "dbl_0_001 \<noteq> 0"
  by (simp_all add: dbl_0_1_def dbl_0_01_def dbl_0_001_def)

subsection \<open>The conversions\<close>

lemma raw_limits_order:
  assumes "raw_limits sg = Inr (lo, hi)"
  shows "lo \<le> 0 \<and> 0 \<le> hi"
  using assms
  by (auto simp: raw_limits_def shl1_def Let_def split: if_splits)

lemma raw_limits_formula:
  assumes "raw_limits sg = Inr (lo, hi)"
  shows "lo = (if is_signed sg then - (2 ^ nat (sig_length sg - 1)) else 0)"
    and "hi = (if is_signed sg then 2 ^ nat (sig_length sg - 1) - 1 else 2 ^ nat (sig_length sg) - 1)"
  using assms by (auto simp: raw_limits_def shl1_def Let_def split: if_splits)

lemma fl_cases:
  "fl q = (if 2 ^ 1024 \<le> \<bar>rnd_val q\<bar> then (if 0 < rnd_val q then PosInf else NegInf)
           else Finite (rnd_val q))"
  by (auto simp: fl_def Let_def; linarith)

lemma py_round_fl:
  "py_round (fl q) =
     (if 2 ^ 1024 \<le> \<bar>rnd_val q\<bar> then Inl OverflowError else Inr (round_half_even (rnd_val q)))"
  by (simp add: fl_cases)

lemma to_raw_Finite:
  assumes "to_float (offset sg) = Inr c" and "to_float (scale sg) = Inr s"
  shows "to_raw sg (Finite x) =
     (if s = 0 then Inl ZeroDivisionError
      else if 2 ^ 1024 \<le> \<bar>rnd_val (x - c)\<bar> \<or> 2 ^ 1024 \<le> \<bar>rnd_val (rnd_val (x - c) / s)\<bar>
      then Inl OverflowError
      else Inr (round_half_even (rnd_val (rnd_val (x - c) / s))))"
proof (cases "s = 0")
  case True
  then show ?thesis by (simp add: to_raw_def assms)
next
  case nz: False
  show ?thesis
  proof (cases "2 ^ 1024 \<le> \<bar>rnd_val (x - c)\<bar>")
    case True
    then have "fl (x - c) = PosInf \<or> fl (x - c) = NegInf"
      by (simp add: fl_cases)
    with nz True show ?thesis
      by (auto simp: to_raw_def assms)
  next
    case False
    then have "fl (x - c) = Finite (rnd_val (x - c))"
      by (simp add: fl_cases)
    with nz False show ?thesis
      by (simp add: to_raw_def assms py_round_fl)
  qed
qed

lemma to_raw_Overflow:
  assumes "to_float (offset sg) = Inl e \<or> to_float (scale sg) = Inl e"
  shows "\<exists>e'. to_raw sg phys = Inl e'"
  using assms by (auto simp: to_raw_def Let_def split: sum.splits)

lemma raw_of_Finite:
  "raw_of sg (Finite x) =
     (case (to_float (offset sg), to_float (scale sg)) of
        (Inr c, Inr s) \<Rightarrow>
          if s = 0 \<or> 2 ^ 1024 \<le> \<bar>rnd_val (x - c)\<bar> \<or> 2 ^ 1024 \<le> \<bar>rnd_val (rnd_val (x - c) / s)\<bar>
          then 0 else round_half_even (rnd_val (rnd_val (x - c) / s))
      | _ \<Rightarrow> 0)"
proof (cases "to_float (offset sg)")
  case (Inl e)
  then show ?thesis by (simp add: raw_of_def to_raw_def)
next
  case c: (Inr c)
  show ?thesis
  proof (cases "to_float (scale sg)")
    case (Inl e)
    then show ?thesis using c by (simp add: raw_of_def to_raw_def)
  next
    case (Inr s)
    show ?thesis unfolding raw_of_def to_raw_Finite [OF c Inr] by (simp add: c Inr)
  qed
qed

lemma clamp_raw_eq:
  assumes "raw_limits sg = Inr (lo, hi)"
  shows "clamp_raw sg r = Inr (max lo (min hi r), r < lo \<or> hi < r)"
  using assms raw_limits_order [OF assms] by (auto simp: clamp_raw_def)

lemma phys_val_of_bad:
  assumes "case py_float v of Inl e \<Rightarrow> True | Inr f \<Rightarrow> \<not> isfinite f"
  shows "phys_val_of v = Finite 0"
  using assms by (auto simp: phys_val_of_def split: sum.splits)

lemma encode_signal_Inr:
  assumes "encode_signal sg v acc = Inr acc'"
  shows "\<exists>lo hi p. raw_limits sg = Inr (lo, hi)
           \<and> to_phys sg (max lo (min hi (raw_of sg (phys_val_of v)))) = Inr p
           \<and> fst acc' = AList.update (sig_name sg) p (fst acc)"
proof -
  obtain lo hi where l: "raw_limits sg = Inr (lo, hi)"
    using assms by (cases "raw_limits sg") (auto simp: encode_signal_def clamp_raw_def)
  show ?thesis
    using assms l by (auto simp: encode_signal_def Let_def clamp_raw_eq [OF l] split: sum.splits)
qed

lemma encode_signals_other:
  assumes "encode_signals sgs desired acc = Inr acc'" and "n \<notin> sig_name ` set sgs"
  shows "map_of (fst acc') n = map_of (fst acc) n"
  using assms
proof (induction sgs arbitrary: acc)
  case Nil
  then show ?case by simp
next
  case (Cons sg sgs)
  from Cons.prems(1) obtain acc1 where
    s: "encode_signal sg (desired_get desired (sig_name sg)) acc = Inr acc1"
    and r: "encode_signals sgs desired acc1 = Inr acc'"
    by (auto split: sum.splits)
  from encode_signal_Inr [OF s] obtain p where
    "fst acc1 = AList.update (sig_name sg) p (fst acc)" by blast
  then have "map_of (fst acc1) n = map_of (fst acc) n"
    using Cons.prems(2) by (simp add: update_conv')
  moreover have "map_of (fst acc') n = map_of (fst acc1) n"
    using Cons.IH [OF r] Cons.prems(2) by simp
  ultimately show ?case by simp
qed

lemma encode_signals_used:
  assumes "encode_signals sgs desired acc = Inr acc'"
    and "sg \<in> set sgs" and "distinct (map sig_name sgs)"
  shows "\<exists>lo hi p. raw_limits sg = Inr (lo, hi)
           \<and> to_phys sg (max lo (min hi (raw_of sg (phys_val_of (desired_get desired (sig_name sg))))))
               = Inr p
           \<and> map_of (fst acc') (sig_name sg) = Some p"
  using assms
proof (induction sgs arbitrary: acc)
  case Nil
  then show ?case by simp
next
  case (Cons s0 sgs)
  from Cons.prems(1) obtain acc1 where
    s: "encode_signal s0 (desired_get desired (sig_name s0)) acc = Inr acc1"
    and r: "encode_signals sgs desired acc1 = Inr acc'"
    by (auto split: sum.splits)
  show ?case
  proof (cases "sg = s0")
    case True
    from encode_signal_Inr [OF s] obtain lo hi p where
      l: "raw_limits s0 = Inr (lo, hi)"
      and p: "to_phys s0 (max lo (min hi (raw_of s0 (phys_val_of (desired_get desired (sig_name s0))))))
               = Inr p"
      and u: "fst acc1 = AList.update (sig_name s0) p (fst acc)" by blast
    have "sig_name s0 \<notin> sig_name ` set sgs" using Cons.prems(3) by simp
    from encode_signals_other [OF r this] u
    have "map_of (fst acc') (sig_name s0) = Some p" by (simp add: update_conv')
    with l p True show ?thesis by blast
  next
    case False
    then have "sg \<in> set sgs" using Cons.prems(2) by simp
    moreover have "distinct (map sig_name sgs)" using Cons.prems(3) by simp
    ultimately show ?thesis using Cons.IH [OF r] by blast
  qed
qed

subsection \<open>The signals of \<open>megasquirt_dash0\<close>\<close>

lemma tps_fields [simp]:
  "sig_name tps = ''tps''" "scale tps = PyF dbl_0_1" "offset tps = PyI 0"
  "sig_length tps = 16" "is_signed tps"
  by (simp_all add: tps_def)

lemma tps_limits: "raw_limits tps = Inr (- 32768, 32767)"
  by (simp add: raw_limits_def shl1_def)

text \<open>\<open>5000.0 / 0.1\<close> is \<open>50000.0\<close>, and \<open>32767 * 0.1\<close> is \<open>3276.7000000000003\<close>.\<close>

lemma quotient_5000: "fl (5000 / dbl_0_1) = Finite 50000"
  using fl_eval [of 15 "5000 / dbl_0_1"]
  by (simp add: round_half_even_def power_int_minus dbl_0_1_def)

lemma product_32767: "fl (32767 * dbl_0_1) = Finite (7205539501467239 / 2 ^ 41)"
  using fl_eval [of 11 "32767 * dbl_0_1"]
  by (simp add: round_half_even_def power_int_minus dbl_0_1_def)

lemma double_3276_7: "fl (7205539501467239 / 2 ^ 41) = Finite (7205539501467239 / 2 ^ 41)"
  using fl_eval [of 11 "7205539501467239 / 2 ^ 41"]
  by (simp add: round_half_even_def power_int_minus)

lemma to_raw_tps_5000: "to_raw tps (Finite 5000) = Inr 50000"
  by (simp add: to_raw_def fl_numeral quotient_5000)

lemma to_phys_tps_hi: "to_phys tps 32767 = Inr (PyFloat (Finite (7205539501467239 / 2 ^ 41)))"
  using product_32767 double_3276_7
  by (simp add: to_phys_def int_to_float_numeral)

lemma to_raw_zero:
  assumes "to_float (offset sg) = Inr 0" and "to_float (scale sg) = Inr s" and "s \<noteq> 0"
  shows "to_raw sg (Finite 0) = Inr 0"
  using assms by (simp add: to_raw_def)

lemma to_phys_zero_float:
  assumes "scale sg = PyF s" and "offset sg = PyI 0"
  shows "to_phys sg 0 = Inr (PyFloat (Finite 0))"
  using assms by (simp add: to_phys_def)

lemma to_phys_zero_int:
  assumes "scale sg = PyI k" and "offset sg = PyI 0"
  shows "to_phys sg 0 = Inr (PyInt 0)"
  using assms by (simp add: to_phys_def)

lemma encode_zero_float:
  assumes "scale sg = PyF s" and "s \<noteq> 0" and "offset sg = PyI 0"
    and "raw_limits sg = Inr (lo, hi)"
    and "phys_val_of v = Finite 0"
  shows "encode_signal sg v acc = Inr (AList.update (sig_name sg) (PyFloat (Finite 0)) (fst acc), snd acc)"
  using assms raw_limits_order [OF assms(4)]
  by (simp add: encode_signal_def raw_of_def to_raw_zero to_phys_zero_float clamp_raw_def)

lemma encode_zero_int:
  assumes "scale sg = PyI k" and "\<bar>k\<bar> < 2 ^ 53" and "k \<noteq> 0" and "offset sg = PyI 0"
    and "raw_limits sg = Inr (lo, hi)"
    and "phys_val_of v = Finite 0"
  shows "encode_signal sg v acc = Inr (AList.update (sig_name sg) (PyInt 0) (fst acc), snd acc)"
  using assms raw_limits_order [OF assms(5)]
  by (simp add: encode_signal_def raw_of_def to_raw_zero int_to_float_small to_phys_zero_int
      clamp_raw_def)

lemma phys_val_of_zero [simp]:
  "phys_val_of (PyInt 0) = Finite 0" "phys_val_of (PyFloat (Finite 0)) = Finite 0"
  "phys_val_of (PyFloat NaN) = Finite 0"
  by (simp_all add: phys_val_of_def)

lemma be_signal_fields [simp]:
  "sig_name (be_signal n st len signed sc) = n"
  "scale (be_signal n st len signed sc) = sc"
  "offset (be_signal n st len signed sc) = PyI 0"
  "raw_limits (be_signal n st 16 True sc) = Inr (- 32768, 32767)"
  "raw_limits (be_signal n st 16 False sc) = Inr (0, 65535)"
  "raw_limits (be_signal n st 8 False sc) = Inr (0, 255)"
  by (simp_all add: be_signal_def raw_limits_def shl1_def)

lemma dash0_fields [simp]:
  "sig_name map_sig = ''map''" "scale map_sig = PyF dbl_0_1" "offset map_sig = PyI 0"
  "raw_limits map_sig = Inr (- 32768, 32767)"
  "sig_name rpm = ''rpm''" "scale rpm = PyI 1" "offset rpm = PyI 0"
  "raw_limits rpm = Inr (0, 65535)"
  "sig_name clt = ''clt''" "scale clt = PyF dbl_0_1" "offset clt = PyI 0"
  "raw_limits clt = Inr (- 32768, 32767)"
  by (simp_all add: map_sig_def rpm_def clt_def raw_limits_def shl1_def)

lemma encode_zero_dash0:
  assumes "phys_val_of v = Finite 0"
  shows "encode_signal map_sig v acc = Inr (AList.update ''map'' (PyFloat (Finite 0)) (fst acc), snd acc)"
    and "encode_signal rpm v acc = Inr (AList.update ''rpm'' (PyInt 0) (fst acc), snd acc)"
    and "encode_signal clt v acc = Inr (AList.update ''clt'' (PyFloat (Finite 0)) (fst acc), snd acc)"
    and "encode_signal tps v acc = Inr (AList.update ''tps'' (PyFloat (Finite 0)) (fst acc), snd acc)"
  using assms
    encode_zero_float [of map_sig dbl_0_1 "- 32768" 32767 v acc]
    encode_zero_int [of rpm 1 0 65535 v acc]
    encode_zero_float [of clt dbl_0_1 "- 32768" 32767 v acc]
    encode_zero_float [of tps dbl_0_1 "- 32768" 32767 v acc]
  by (simp_all add: tps_limits)

lemma dash0_clamped:
  "encode_message_safe zero_pack dash0 [''tps'' \<mapsto> PyFloat (Finite 5000)] =
     Inr (replicate 8 0,
          [(''map'', PyFloat (Finite 0)), (''rpm'', PyInt 0), (''clt'', PyFloat (Finite 0)),
           (''tps'', PyFloat (Finite (7205539501467239 / 2 ^ 41)))],
          [(''tps'', (PyFloat (Finite 5000), PyFloat (Finite (7205539501467239 / 2 ^ 41))))])"
proof -
  have "encode_signal tps (PyFloat (Finite 5000)) acc =
          Inr (AList.update ''tps'' (PyFloat (Finite (7205539501467239 / 2 ^ 41))) (fst acc),
               AList.update ''tps'' (PyFloat (Finite 5000),
                                     PyFloat (Finite (7205539501467239 / 2 ^ 41))) (snd acc))" for acc
    by (simp add: encode_signal_def phys_val_of_def raw_of_def to_raw_tps_5000 clamp_raw_def
        tps_limits to_phys_tps_hi)
  then show ?thesis
    by (simp add: encode_message_safe_def dash0_def zero_pack_def desired_get_def encode_zero_dash0)
qed

subsection \<open>What \<open>encode_message_safe\<close> reports\<close>

text \<open>
  Claim C1, as amended. Let \<open>encode_message_safe\<close> return, let \<open>sg\<close> be a signal of the
  message, the names of whose signals are distinct, with raw limits \<open>lo\<close> and \<open>hi\<close>, and let
  the value requested for it be numeric and finite, \<open>x\<close>. Then the limits are
  \<open>[0, 2^len - 1]\<close> for an unsigned and \<open>[-2^(len-1), 2^(len-1) - 1]\<close> for a signed signal;
  the raw integer is \<open>round((x - offset) / scale)\<close> as double arithmetic computes it (the
  difference and the quotient are each rounded to a double), unless that conversion raises
  (an offset or scale too large for a double, a zero scale, or a difference or quotient
  that overflows), in which case the raw integer is 0; and the used physical value reported
  for the signal is \<open>to_phys\<close> of the raw integer clamped to the limits, that is
  \<open>raw_clamped * scale + offset\<close>.
\<close>

theorem encode_message_safe_used:
  assumes enc: "encode_message_safe pack msg desired = Inr (payload, used, clamped)"
    and mem: "sg \<in> set (signals msg)"
    and dist: "distinct (map sig_name (signals msg))"
    and val: "py_float (desired_get desired (sig_name sg)) = Inr (Finite x)"
    and lim: "raw_limits sg = Inr (lo, hi)"
  shows "lo = (if is_signed sg then - (2 ^ nat (sig_length sg - 1)) else 0)
       \<and> hi = (if is_signed sg then 2 ^ nat (sig_length sg - 1) - 1 else 2 ^ nat (sig_length sg) - 1)
       \<and> raw_of sg (Finite x) =
           (case (to_float (offset sg), to_float (scale sg)) of
              (Inr c, Inr s) \<Rightarrow>
                if s = 0 \<or> 2 ^ 1024 \<le> \<bar>rnd_val (x - c)\<bar>
                   \<or> 2 ^ 1024 \<le> \<bar>rnd_val (rnd_val (x - c) / s)\<bar>
                then 0 else round_half_even (rnd_val (rnd_val (x - c) / s))
            | _ \<Rightarrow> 0)
       \<and> (\<exists>p. to_phys sg (max lo (min hi (raw_of sg (Finite x)))) = Inr p
              \<and> map_of used (sig_name sg) = Some p)"
proof -
  from enc obtain c where
    e: "encode_signals (signals msg) desired ([], []) = Inr (used, c)"
    by (auto simp: encode_message_safe_def split: sum.splits prod.splits)
  have pv: "phys_val_of (desired_get desired (sig_name sg)) = Finite x"
    using val by (simp add: phys_val_of_def)
  from encode_signals_used [OF e mem dist] lim pv obtain p where
    p: "to_phys sg (max lo (min hi (raw_of sg (Finite x)))) = Inr p"
    and u: "map_of used (sig_name sg) = Some p" by auto
  from p u have "\<exists>p. to_phys sg (max lo (min hi (raw_of sg (Finite x)))) = Inr p
              \<and> map_of used (sig_name sg) = Some p" by blast
  with raw_limits_formula [OF lim] raw_of_Finite [of sg x] show ?thesis by simp
qed

text \<open>
  The theorem at work: 5000.0 is requested for \<open>tps\<close>, whose raw value 50000 is clamped to
  32767, and the double \<open>32767 * 0.1 = 3276.7000000000003\<close> is reported.
\<close>

theorem encode_message_safe_used_witness:
  "encode_message_safe zero_pack dash0 [''tps'' \<mapsto> PyFloat (Finite 5000)] =
     Inr (replicate 8 0,
          [(''map'', PyFloat (Finite 0)), (''rpm'', PyInt 0), (''clt'', PyFloat (Finite 0)),
           (''tps'', PyFloat (Finite (7205539501467239 / 2 ^ 41)))],
          [(''tps'', (PyFloat (Finite 5000), PyFloat (Finite (7205539501467239 / 2 ^ 41))))])
   \<and> raw_limits tps = Inr (- 32768, 32767)
   \<and> raw_of tps (Finite 5000) = 50000
   \<and> to_phys tps (max (- 32768) (min 32767 (raw_of tps (Finite 5000))))
       = Inr (PyFloat (Finite (7205539501467239 / 2 ^ 41)))"
proof -
  have mem: "tps \<in> set (signals dash0)" by (simp add: dash0_def)
  have dist: "distinct (map sig_name (signals dash0))"
    by (simp add: dash0_def)
  have val: "py_float (desired_get [''tps'' \<mapsto> PyFloat (Finite 5000)] (sig_name tps))
             = Inr (Finite 5000)"
    by (simp add: desired_get_def)
  have raw: "raw_of tps (Finite 5000) = 50000"
    by (simp add: raw_of_def to_raw_tps_5000)
  from encode_message_safe_used [OF dash0_clamped mem dist val tps_limits]
  have "to_phys tps (max (- 32768) (min 32767 (raw_of tps (Finite 5000))))
          = Inr (PyFloat (Finite (7205539501467239 / 2 ^ 41)))"
    by auto
  then show ?thesis
    using dash0_clamped tps_limits raw by simp
qed

text \<open>
  A value half way between two raw steps: \<open>0.45 / 0.1\<close> is \<open>4.5\<close> in doubles, \<open>round\<close> gives
  the even neighbour 4, and \<open>4 * 0.1 = 0.4\<close> is what is sent.
\<close>

lemma half_way_value:
  "to_raw tps (Finite (8106479329266893 / 2 ^ 54)) = Inr 4
   \<and> to_phys tps 4 = Inr (PyFloat (Finite (3602879701896397 / 2 ^ 53)))"
proof -
  have a: "fl (8106479329266893 / 2 ^ 54) = Finite (8106479329266893 / 2 ^ 54)"
    using fl_eval [of "- 2" "8106479329266893 / 2 ^ 54"]
    by (simp add: round_half_even_def power_int_minus)
  have b: "fl (8106479329266893 / 2 ^ 54 / dbl_0_1) = Finite (9 / 2)"
    using fl_eval [of 2 "8106479329266893 / 2 ^ 54 / dbl_0_1"]
    by (simp add: round_half_even_def power_int_minus dbl_0_1_def)
  have c: "round_half_even (9 / 2) = 4"
    by (simp add: round_half_even_def)
  have d: "fl (4 * dbl_0_1) = Finite (3602879701896397 / 2 ^ 53)"
    using fl_eval [of "- 2" "4 * dbl_0_1"]
    by (simp add: round_half_even_def power_int_minus dbl_0_1_def)
  have e: "fl (3602879701896397 / 2 ^ 53) = Finite (3602879701896397 / 2 ^ 53)"
    using fl_eval [of "- 2" "3602879701896397 / 2 ^ 53"]
    by (simp add: round_half_even_def power_int_minus)
  have "to_raw tps (Finite (8106479329266893 / 2 ^ 54)) = Inr 4"
    using a b c by (simp add: to_raw_def)
  moreover have "to_phys tps 4 = Inr (PyFloat (Finite (3602879701896397 / 2 ^ 53)))"
    using d e by (simp add: to_phys_def int_to_float_numeral)
  ultimately show ?thesis by simp
qed

text \<open>
  The claim as first stated does not hold for every finite value: for \<open>tps = 2^1023\<close> the
  quotient \<open>2^1023 / 0.1\<close> overflows to infinity, \<open>round\<close> raises \<open>OverflowError\<close>, the
  handler sets the raw integer to 0, and 0.0 is reported, where clamping the rounded
  quotient would give the upper limit 32767 and \<open>3276.7000000000003\<close>.
\<close>

theorem huge_value_sent_as_zero:
  "encode_message_safe zero_pack dash0 [''tps'' \<mapsto> PyFloat (Finite (2 ^ 1023))] =
     Inr (replicate 8 0,
          [(''map'', PyFloat (Finite 0)), (''rpm'', PyInt 0), (''clt'', PyFloat (Finite 0)),
           (''tps'', PyFloat (Finite 0))],
          [])
   \<and> isfinite (Finite (2 ^ 1023))
   \<and> to_raw tps (Finite (2 ^ 1023)) = Inl OverflowError
   \<and> raw_of tps (Finite (2 ^ 1023)) = 0
   \<and> to_phys tps (max (- 32768) (min 32767 (round_half_even (2 ^ 1023 / dbl_0_1))))
       = Inr (PyFloat (Finite (7205539501467239 / 2 ^ 41)))"
proof -
  have a: "fl (2 ^ 1023) = Finite (2 ^ 1023)"
    using rnd_val_eval [of 1023 "2 ^ 1023"]
    by (simp add: fl_Finite round_half_even_def)
  have "(2::real) ^ 1025 \<le> 2 ^ 1023 / dbl_0_1"
    by (simp add: dbl_0_1_def)
  then have b: "fl (2 ^ 1023 / dbl_0_1) = PosInf"
    by (rule fl_PosInf)
  have r: "to_raw tps (Finite (2 ^ 1023)) = Inl OverflowError"
    using a b by (simp add: to_raw_def)
  then have z: "raw_of tps (Finite (2 ^ 1023)) = 0"
    by (simp add: raw_of_def)
  have "encode_signal tps (PyFloat (Finite (2 ^ 1023))) acc =
          Inr (AList.update ''tps'' (PyFloat (Finite 0)) (fst acc), snd acc)" for acc
    using z by (simp add: encode_signal_def phys_val_of_def clamp_raw_def
        tps_limits to_phys_zero_float)
  then have e: "encode_message_safe zero_pack dash0 [''tps'' \<mapsto> PyFloat (Finite (2 ^ 1023))] =
     Inr (replicate 8 0,
          [(''map'', PyFloat (Finite 0)), (''rpm'', PyInt 0), (''clt'', PyFloat (Finite 0)),
           (''tps'', PyFloat (Finite 0))],
          [])"
    by (simp add: encode_message_safe_def dash0_def zero_pack_def desired_get_def encode_zero_dash0)
  have "(32768::real) \<le> 2 ^ 1023 / dbl_0_1"
    by (simp add: dbl_0_1_def)
  then have "32768 \<le> round_half_even (2 ^ 1023 / dbl_0_1)"
    using round_half_even_ge [of 32768 "2 ^ 1023 / dbl_0_1"] by simp
  then have "max (- 32768) (min 32767 (round_half_even (2 ^ 1023 / dbl_0_1))) = 32767"
    by simp
  with e r z to_phys_tps_hi show ?thesis by simp
qed


subsection \<open>The signals of an accepted database\<close>

lemma check_signals_ok:
  assumes "check_signals expected_meta sgs = Inr ()" and "sg \<in> set sgs"
    and "map_of expected_meta (sig_name sg) = Some expd"
  shows "\<not> signal_diff sg expd"
  using assms
proof (induction sgs)
  case Nil
  then show ?case by simp
next
  case (Cons s0 sgs)
  show ?case
  proof (cases "sg = s0")
    case True
    with Cons.prems show ?thesis by (auto split: option.splits if_splits)
  next
    case False
    with Cons.prems have "check_signals expected_meta sgs = Inr ()" "sg \<in> set sgs"
      by (auto split: option.splits if_splits)
    then show ?thesis using Cons.IH Cons.prems(3) by simp
  qed
qed

lemma check_messages_ok:
  assumes "check_messages msgs = Inr ()" and "msg \<in> set msgs"
  shows "check_message msg = Inr ()"
  using assms by (induction msgs) (auto split: sum.splits)

lemma expected_tables:
  assumes "fid \<in> EXPECTED_IDS"
  shows "\<exists>S rows. map_of EXPECTED_SIGNALS fid = Some S \<and> S \<noteq> {}
           \<and> map_of EXPECTED_SIGNAL_META fid = Some rows
           \<and> (\<forall>n\<in>S. \<exists>expd. map_of rows n = Some expd
                  \<and> m_length expd \<in> {8, 16}
                  \<and> m_offset expd = PyI 0
                  \<and> m_scale expd \<in> {PyF dbl_0_1, PyI 1, PyF dbl_0_001, PyF dbl_0_01})"
proof -
  from assms consider "fid = 1512" | "fid = 1513" | "fid = 1514" | "fid = 1515" | "fid = 1516"
    by (auto simp: EXPECTED_IDS_def)
  then show ?thesis
    by cases (simp_all add: EXPECTED_SIGNALS_def EXPECTED_SIGNAL_META_def)
qed

lemma layout_signal_meta:
  assumes lay: "assert_expected_layout db = Inr ()"
    and msg: "msg \<in> set (messages db)" and sg: "sg \<in> set (signals msg)"
  shows "\<exists>expd. \<not> signal_diff sg expd
           \<and> m_length expd \<in> {8, 16}
           \<and> m_offset expd = PyI 0
           \<and> m_scale expd \<in> {PyF dbl_0_1, PyI 1, PyF dbl_0_001, PyF dbl_0_01}"
proof -
  from lay have ids: "frame_id ` set (messages db) = EXPECTED_IDS"
    and cms: "check_messages (messages db) = Inr ()"
    by (auto simp: assert_expected_layout_def split: if_splits)
  from ids msg have "frame_id msg \<in> EXPECTED_IDS" by blast
  from expected_tables [OF this] obtain S rows where
    S: "map_of EXPECTED_SIGNALS (frame_id msg) = Some S" "S \<noteq> {}"
    and rows: "map_of EXPECTED_SIGNAL_META (frame_id msg) = Some rows"
    and all: "\<forall>n\<in>S. \<exists>expd. map_of rows n = Some expd
                  \<and> m_length expd \<in> {8, 16}
                  \<and> m_offset expd = PyI 0
                  \<and> m_scale expd \<in> {PyF dbl_0_1, PyI 1, PyF dbl_0_001, PyF dbl_0_01}"
    by blast
  from check_messages_ok [OF cms msg] S rows
  have found: "sig_name ` set (signals msg) = S"
    and cs: "check_signals rows (signals msg) = Inr ()"
    by (auto simp: check_message_def Let_def split: if_splits)
  from found sg have "sig_name sg \<in> S" by blast
  with all obtain expd where
    e: "map_of rows (sig_name sg) = Some expd"
    and g: "m_length expd \<in> {8, 16}" "m_offset expd = PyI 0"
      "m_scale expd \<in> {PyF dbl_0_1, PyI 1, PyF dbl_0_001, PyF dbl_0_01}"
    by blast
  from check_signals_ok [OF cs sg e] g show ?thesis by blast
qed

lemma layout_signal_facts:
  assumes lay: "assert_expected_layout db = Inr ()"
    and msg: "msg \<in> set (messages db)" and sg: "sg \<in> set (signals msg)"
  shows "sig_length sg = 8 \<or> sig_length sg = 16"
    and "num_val (offset sg) = 0"
    and "1 / 1024 \<le> num_val (scale sg)" and "num_val (scale sg) \<le> 1"
proof -
  from layout_signal_meta [OF assms] obtain expd where
    d: "\<not> signal_diff sg expd"
    and g: "m_length expd \<in> {8, 16}" "m_offset expd = PyI 0"
      "m_scale expd \<in> {PyF dbl_0_1, PyI 1, PyF dbl_0_001, PyF dbl_0_01}"
    by blast
  from d have eq: "sig_length sg = m_length expd" "num_val (scale sg) = num_val (m_scale expd)"
    "num_val (offset sg) = num_val (m_offset expd)"
    by (simp_all add: signal_diff_def)
  show "sig_length sg = 8 \<or> sig_length sg = 16" using eq(1) g(1) by auto
  show "num_val (offset sg) = 0" using eq(3) g(2) by simp
  show "1 / 1024 \<le> num_val (scale sg)" using eq(2) g(3) dbl_bounds by auto
  show "num_val (scale sg) \<le> 1" using eq(2) g(3) dbl_bounds by auto
qed

lemma layout_limits:
  assumes "sig_length sg = 8 \<or> sig_length sg = 16" and "raw_limits sg = Inr (lo, hi)"
  shows "- 32768 \<le> lo" and "hi \<le> 65535"
  using assms by (auto simp: raw_limits_def shl1_def Let_def split: if_splits)

subsection \<open>Round trip\<close>

lemma div_scale_le:
  fixes s :: real
  assumes "1 / 1024 \<le> s" and "0 \<le> d"
  shows "d / s \<le> 1024 * d"
proof -
  have s: "0 < s" using assms(1) by simp
  have "d \<le> 1024 * d * s"
  proof -
    have "d * 1 \<le> d * (1024 * s)" using assms by (intro mult_left_mono) simp_all
    then show ?thesis by (simp add: mult_ac)
  qed
  then show ?thesis using s by (simp add: pos_divide_le_eq)
qed

lemma div_scale_close:
  fixes s :: real
  assumes "1 / 1024 \<le> s" and "\<bar>a - b\<bar> \<le> d"
  shows "\<bar>a / s - b / s\<bar> \<le> 1024 * d"
proof -
  have s: "0 < s" using assms(1) by simp
  have "\<bar>a / s - b / s\<bar> = \<bar>a - b\<bar> / s"
    using s by (simp add: diff_divide_distrib [symmetric])
  also have "\<dots> \<le> 1024 * \<bar>a - b\<bar>"
    using assms(1) by (rule div_scale_le) simp
  also have "\<dots> \<le> 1024 * d" using assms(2) by simp
  finally show ?thesis .
qed

lemma scaled_int_bounds:
  fixes s :: real
  assumes "0 < s" and "s \<le> 1" and "- 32768 \<le> n" and "n \<le> 65535"
  shows "- 32768 \<le> of_int n * s" and "of_int n * s \<le> 65535"
proof -
  have n: "- 32768 \<le> real_of_int n" "real_of_int n \<le> 65535" using assms(3,4) by simp_all
  show "- 32768 \<le> of_int n * s"
  proof (cases "0 \<le> n")
    case True
    then have "0 \<le> real_of_int n * s" using assms(1) by simp
    then show ?thesis by simp
  next
    case False
    then have "(- real_of_int n) * s \<le> (- real_of_int n) * 1"
      using assms(2) by (intro mult_left_mono) simp_all
    then show ?thesis using n by simp
  qed
  show "of_int n * s \<le> 65535"
  proof (cases "0 \<le> n")
    case True
    then have "real_of_int n * s \<le> real_of_int n * 1"
      using assms(2) by (intro mult_left_mono) simp_all
    then show ?thesis using n by simp
  next
    case False
    then have "real_of_int n * s \<le> 0" using assms(1) by (simp add: mult_le_0_iff)
    then show ?thesis by simp
  qed
qed

lemma rnd_val_close:
  assumes "\<bar>x\<bar> \<le> 134217728"
  shows "\<bar>rnd_val x - x\<bar> \<le> 1 / 33554432"
  using rnd_val_small [of x] assms by simp

lemma fl_moderate:
  assumes "\<bar>x\<bar> \<le> 134217729"
  shows "fl x = Finite (rnd_val x)" and "\<bar>x\<bar> < 2 ^ 1024"
proof -
  have "(134217729::real) < 2 ^ 1023" by simp
  with assms have "\<bar>x\<bar> \<le> 2 ^ 1023" by linarith
  then show "fl x = Finite (rnd_val x)" by (rule fl_Finite)
  have "(134217729::real) < 2 ^ 1024" by simp
  with assms show "\<bar>x\<bar> < 2 ^ 1024" by linarith
qed

text \<open>
  The numeric core of the round trip, for a scale between \<open>2^-10\<close> and 1 and raw limits
  of at most 16 bits: the rounding errors of the two operations of \<open>to_raw\<close> stay far below
  one half.
\<close>

lemma round_trip_core:
  fixes s x :: real and lo hi :: int
  assumes s: "1 / 1024 \<le> s" "s \<le> 1"
    and lim: "- 32768 \<le> lo" "hi \<le> 65535"
    and x: "of_int lo * s - 1 / 16777216 \<le> x" "x \<le> of_int hi * s + 1 / 16777216"
    and lohi: "lo \<le> hi"
  defines "q \<equiv> rnd_val (rnd_val x / s)"
  shows "\<bar>rnd_val x\<bar> < 2 ^ 1024" and "\<bar>q\<bar> < 2 ^ 1024"
    and "lo \<le> round_half_even q" and "round_half_even q \<le> hi"
    and "\<bar>of_int (round_half_even q) * s - x\<bar> \<le> s * (1 / 2 + 1 / 8192)"
proof -
  have sp: "0 < s" using s(1) by simp
  have hi0: "- 32768 \<le> hi" and lo0: "lo \<le> 65535" using lim lohi by simp_all
  have bl: "- 32768 \<le> of_int lo * s" using scaled_int_bounds(1) [OF sp s(2) lim(1) lo0] .
  have bh: "of_int hi * s \<le> 65535" using scaled_int_bounds(2) [OF sp s(2) hi0 lim(2)] .
  have xb: "\<bar>x\<bar> \<le> 65536" using x bl bh by linarith
  then have "\<bar>x\<bar> \<le> 134217728" by linarith
  from rnd_val_close [OF this] have x1: "\<bar>rnd_val x - x\<bar> \<le> 1 / 33554432" .
  have x1b: "\<bar>rnd_val x\<bar> \<le> 65537" using x1 xb by linarith
  then have "\<bar>rnd_val x\<bar> \<le> 134217729" by linarith
  then show "\<bar>rnd_val x\<bar> < 2 ^ 1024" by (rule fl_moderate)
  define t where "t = x / s"
  define t1 where "t1 = rnd_val x / s"
  have tt: "\<bar>t1 - t\<bar> \<le> 1024 * (1 / 33554432)"
    unfolding t1_def t_def using s(1) x1 by (rule div_scale_close)
  have "\<bar>rnd_val x - 0\<bar> \<le> 65537" using x1b by simp
  from div_scale_close [OF s(1) this] have t1b: "\<bar>t1\<bar> \<le> 1024 * 65537"
    by (simp add: t1_def)
  then have "\<bar>t1\<bar> \<le> 134217728" by linarith
  from rnd_val_close [OF this] have qt: "\<bar>q - t1\<bar> \<le> 1 / 33554432"
    by (simp add: q_def t1_def)
  have qb: "\<bar>q\<bar> \<le> 134217729" using qt t1b by linarith
  then show "\<bar>q\<bar> < 2 ^ 1024" by (rule fl_moderate)
  have qt': "\<bar>q - t\<bar> \<le> 1 / 16384" using qt tt by linarith
  have xs: "x = t * s" using sp by (simp add: t_def)
  have ds: "(1 / 16777216) / s \<le> 1024 * (1 / 16777216)"
    using s(1) by (rule div_scale_le) simp
  have th: "t \<le> of_int hi + 1 / 16384"
  proof -
    have "x / s \<le> (of_int hi * s + 1 / 16777216) / s"
      using x(2) sp by (simp only: divide_right_mono less_imp_le)
    moreover have "(of_int hi * s + 1 / 16777216) / s = of_int hi + (1 / 16777216) / s"
      using sp by (simp add: add_divide_distrib)
    ultimately show ?thesis using ds unfolding t_def by linarith
  qed
  have tl: "of_int lo - 1 / 16384 \<le> t"
  proof -
    have "(of_int lo * s - 1 / 16777216) / s \<le> x / s"
      using x(1) sp by (simp only: divide_right_mono less_imp_le)
    moreover have "(of_int lo * s - 1 / 16777216) / s = of_int lo - (1 / 16777216) / s"
      using sp by (simp add: diff_divide_distrib)
    ultimately show ?thesis using ds unfolding t_def by linarith
  qed
  have "q < of_int hi + 1 / 2" using th qt' by linarith
  then show "round_half_even q \<le> hi" by (rule round_half_even_lt)
  have "of_int lo - 1 / 2 < q" using tl qt' by linarith
  then show "lo \<le> round_half_even q" by (rule round_half_even_gt)
  have nt: "\<bar>of_int (round_half_even q) - t\<bar> \<le> 1 / 2 + 1 / 8192"
    using round_half_even_err [of q] qt' by linarith
  have "of_int (round_half_even q) * s - x = (of_int (round_half_even q) - t) * s"
    by (simp add: xs algebra_simps)
  then have "\<bar>of_int (round_half_even q) * s - x\<bar> = \<bar>of_int (round_half_even q) - t\<bar> * s"
    using sp by (simp add: abs_mult)
  also have "\<dots> \<le> (1 / 2 + 1 / 8192) * s"
    using nt sp by (intro mult_right_mono) simp_all
  finally show "\<bar>of_int (round_half_even q) * s - x\<bar> \<le> s * (1 / 2 + 1 / 8192)"
    by (simp add: mult.commute)
qed

lemma to_phys_layout:
  assumes sc: "1 / 1024 \<le> num_val (scale sg)" "num_val (scale sg) \<le> 1"
    and off: "num_val (offset sg) = 0"
    and n: "- 32768 \<le> n" "n \<le> 65535"
  shows "\<exists>p y. to_phys sg n = Inr p \<and> py_float p = Inr (Finite y)
           \<and> \<bar>y - of_int n * num_val (scale sg)\<bar> \<le> 1 / 16777216"
proof -
  have n53: "\<bar>n\<bar> < 2 ^ 53" using n by simp
  have itf: "int_to_float n = Inr (of_int n)" using n53 by (rule int_to_float_small)
  have c0: "to_float (offset sg) = Inr 0"
    using to_float_num_val [of "offset sg"] off by simp
  show ?thesis
  proof (cases "scale sg")
    case (PyI k)
    with sc have "0 < real_of_int k" "real_of_int k \<le> 1" by simp_all
    then have k: "k = 1" by simp
    show ?thesis
    proof (cases "offset sg")
      case (PyI c)
      with off have "c = 0" by simp
      then show ?thesis
        using \<open>scale sg = PyI k\<close> PyI k itf by (simp add: to_phys_def)
    next
      case (PyF c)
      with off have "c = 0" by simp
      then show ?thesis
        using \<open>scale sg = PyI k\<close> PyF k itf n53 by (simp add: to_phys_def fl_int)
    qed
  next
    case (PyF s)
    then have s: "1 / 1024 \<le> s" "s \<le> 1" using sc by simp_all
    then have sp: "0 < s" by simp
    define v where "v = real_of_int n * s"
    have vb: "- 32768 \<le> v" "v \<le> 65535"
      unfolding v_def using scaled_int_bounds [OF sp s(2) n] by simp_all
    then have "\<bar>v\<bar> \<le> 134217728" by linarith
    from rnd_val_close [OF this] have e1: "\<bar>rnd_val v - v\<bar> \<le> 1 / 33554432" .
    have "\<bar>v\<bar> \<le> 134217729" using vb by linarith
    then have f1: "fl v = Finite (rnd_val v)" by (rule fl_moderate)
    have mb: "\<bar>rnd_val v\<bar> \<le> 65536" using e1 vb by linarith
    then have "\<bar>rnd_val v\<bar> \<le> 134217728" by linarith
    from rnd_val_close [OF this] have e2: "\<bar>rnd_val (rnd_val v) - rnd_val v\<bar> \<le> 1 / 33554432" .
    have "\<bar>rnd_val v\<bar> \<le> 134217729" using mb by linarith
    then have f2: "fl (rnd_val v) = Finite (rnd_val (rnd_val v))" by (rule fl_moderate)
    have "to_phys sg n = Inr (PyFloat (Finite (rnd_val (rnd_val v))))"
      using PyF itf c0 f1 f2 by (simp add: to_phys_def v_def)
    moreover have "\<bar>rnd_val (rnd_val v) - v\<bar> \<le> 1 / 16777216"
      using e1 e2 by linarith
    ultimately show ?thesis using PyF by (simp add: v_def)
  qed
qed

lemma to_float_layout:
  assumes "1 / 1024 \<le> num_val (scale sg)" "num_val (scale sg) \<le> 1"
    and "num_val (offset sg) = 0"
  shows "to_float (offset sg) = Inr 0" and "to_float (scale sg) = Inr (num_val (scale sg))"
proof -
  show "to_float (offset sg) = Inr 0"
    using assms(3) to_float_num_val [of "offset sg"] by simp
  have "(1::real) < 2 ^ 53" by simp
  with assms(1,2) have "\<bar>num_val (scale sg)\<bar> < 2 ^ 53" by linarith
  then show "to_float (scale sg) = Inr (num_val (scale sg))" by (rule to_float_num_val)
qed

text \<open>
  Claim C2. Let \<open>sg\<close> be a signal of a database that \<open>assert_expected_layout\<close> accepts (every
  database that \<open>load_db\<close> returns is one), with raw limits \<open>lo\<close> and \<open>hi\<close>, and let \<open>x\<close> lie
  between the physical values of the two limits. Then \<open>to_raw\<close> of \<open>x\<close> is within the
  limits (clamping leaves it alone), and converting it back gives a value \<open>y\<close> with
  \<open>|y - x| \<le> scale\<close>. The arithmetic is that of the doubles.
\<close>

theorem round_trip_bound:
  assumes lay: "assert_expected_layout db = Inr ()"
    and msg: "msg \<in> set (messages db)" and sg: "sg \<in> set (signals msg)"
    and lim: "raw_limits sg = Inr (lo, hi)"
    and a: "to_phys sg lo = Inr pa" "py_float pa = Inr (Finite a)"
    and b: "to_phys sg hi = Inr pb" "py_float pb = Inr (Finite b)"
    and x: "a \<le> x" "x \<le> b"
  shows "\<exists>n p y. to_raw sg (Finite x) = Inr n \<and> clamp_raw sg n = Inr (n, False)
           \<and> to_phys sg n = Inr p \<and> py_float p = Inr (Finite y)
           \<and> \<bar>y - x\<bar> \<le> num_val (scale sg)"
proof -
  define s where "s = num_val (scale sg)"
  note f = layout_signal_facts [OF lay msg sg]
  have s: "1 / 1024 \<le> s" "s \<le> 1" using f(3,4) by (simp_all add: s_def)
  have l: "- 32768 \<le> lo" "hi \<le> 65535" using layout_limits [OF f(1) lim] by simp_all
  have o: "lo \<le> 0" "0 \<le> hi" using raw_limits_order [OF lim] by simp_all
  then have lohi: "lo \<le> hi" by simp
  have lo1: "lo \<le> 65535" and hi1: "- 32768 \<le> hi" using o l by simp_all
  from to_phys_layout [OF f(3,4,2) l(1) lo1] a
  have ea: "\<bar>a - of_int lo * s\<bar> \<le> 1 / 16777216" by (auto simp: s_def)
  from to_phys_layout [OF f(3,4,2) hi1 l(2)] b
  have eb: "\<bar>b - of_int hi * s\<bar> \<le> 1 / 16777216" by (auto simp: s_def)
  have xl: "of_int lo * s - 1 / 16777216 \<le> x" using ea x(1) by linarith
  have xh: "x \<le> of_int hi * s + 1 / 16777216" using eb x(2) by linarith
  define q where "q = rnd_val (rnd_val x / s)"
  define n where "n = round_half_even q"
  note core = round_trip_core [OF s l xl xh lohi, folded q_def, folded n_def]
  have sz: "s \<noteq> 0" using s(1) by auto
  have raw: "to_raw sg (Finite x) = Inr n"
    using to_raw_Finite [OF to_float_layout [OF f(3,4,2)], of x] core(1,2) sz
    by (simp add: s_def [symmetric] q_def [symmetric] n_def [symmetric] not_le [symmetric])
  have cl: "clamp_raw sg n = Inr (n, False)"
    using core(3,4) lim by (simp add: clamp_raw_def)
  have nb: "- 32768 \<le> n" "n \<le> 65535" using core(3,4) l by simp_all
  from to_phys_layout [OF f(3,4,2) nb] obtain p y where
    p: "to_phys sg n = Inr p" "py_float p = Inr (Finite y)"
    and ey: "\<bar>y - of_int n * s\<bar> \<le> 1 / 16777216" by (auto simp: s_def)
  have "s * (1 / 2 + 1 / 8192) + 1 / 16777216 \<le> s" using s(1) by simp
  then have "\<bar>y - x\<bar> \<le> s" using ey core(5) by linarith
  with raw cl p show ?thesis unfolding s_def by blast
qed


lemma listed_db_layout: "assert_expected_layout listed_db = Inr ()"
proof -
  have 0: "check_message dash0 = Inr ()"
    by (auto simp: check_message_def EXPECTED_DLC_def EXPECTED_NAMES_def EXPECTED_SIGNALS_def
        EXPECTED_SIGNAL_META_def dash0_def map_sig_def rpm_def clt_def tps_def signal_diff_def)
  have 1: "check_message dash1 = Inr ()"
    by (auto simp: check_message_def EXPECTED_DLC_def EXPECTED_NAMES_def EXPECTED_SIGNALS_def
        EXPECTED_SIGNAL_META_def dash1_def be_signal_def signal_diff_def)
  have 2: "check_message dash2 = Inr ()"
    by (auto simp: check_message_def EXPECTED_DLC_def EXPECTED_NAMES_def EXPECTED_SIGNALS_def
        EXPECTED_SIGNAL_META_def dash2_def be_signal_def signal_diff_def)
  have 3: "check_message dash3 = Inr ()"
    by (auto simp: check_message_def EXPECTED_DLC_def EXPECTED_NAMES_def EXPECTED_SIGNALS_def
        EXPECTED_SIGNAL_META_def dash3_def be_signal_def signal_diff_def)
  have 4: "check_message dash4 = Inr ()"
    by (auto simp: check_message_def EXPECTED_DLC_def EXPECTED_NAMES_def EXPECTED_SIGNALS_def
        EXPECTED_SIGNAL_META_def dash4_def be_signal_def signal_diff_def)
  have "frame_id ` set (messages listed_db) = EXPECTED_IDS"
    by (simp add: listed_db_def EXPECTED_IDS_def dash0_def dash1_def dash2_def dash3_def dash4_def)
  then show ?thesis
    by (simp add: assert_expected_layout_def listed_db_def 0 1 2 3 4)
qed

text \<open>
  The theorem at work on \<open>tps\<close>: its range is from \<open>-3276.8\<close> to \<open>3276.7000000000003\<close>, and
  the value is the double \<open>12.34\<close>.
\<close>

lemma to_phys_tps_lo: "to_phys tps (- 32768) = Inr (PyFloat (Finite (- (3602879701896397 / 2 ^ 40))))"
proof -
  have a: "fl (- (32768 * dbl_0_1)) = Finite (- (3602879701896397 / 2 ^ 40))"
    using fl_eval [of 11 "- (32768 * dbl_0_1)"]
    by (simp add: round_half_even_def power_int_minus dbl_0_1_def)
  have b: "fl (- (3602879701896397 / 2 ^ 40)) = Finite (- (3602879701896397 / 2 ^ 40))"
    using fl_eval [of 11 "- (3602879701896397 / 2 ^ 40)"]
    by (simp add: round_half_even_def power_int_minus)
  show ?thesis
    using a b by (simp add: to_phys_def int_to_float_numeral)
qed

theorem round_trip_bound_witness:
  "assert_expected_layout listed_db = Inr ()
   \<and> raw_limits tps = Inr (- 32768, 32767)
   \<and> to_phys tps (- 32768) = Inr (PyFloat (Finite (- (3602879701896397 / 2 ^ 40))))
   \<and> to_phys tps 32767 = Inr (PyFloat (Finite (7205539501467239 / 2 ^ 41)))
   \<and> (\<exists>n p y. to_raw tps (Finite (3473401212609495 / 2 ^ 48)) = Inr n
          \<and> clamp_raw tps n = Inr (n, False)
          \<and> to_phys tps n = Inr p \<and> py_float p = Inr (Finite y)
          \<and> \<bar>y - 3473401212609495 / 2 ^ 48\<bar> \<le> num_val (scale tps))"
proof -
  have msg: "dash0 \<in> set (messages listed_db)" by (simp add: listed_db_def)
  have sg: "tps \<in> set (signals dash0)" by (simp add: dash0_def)
  have a: "py_float (PyFloat (Finite (- (3602879701896397 / 2 ^ 40))))
             = Inr (Finite (- (3602879701896397 / 2 ^ 40)))" by simp
  have b: "py_float (PyFloat (Finite (7205539501467239 / 2 ^ 41)))
             = Inr (Finite (7205539501467239 / 2 ^ 41))" by simp
  have x: "- (3602879701896397 / 2 ^ 40) \<le> (3473401212609495 / 2 ^ 48 :: real)"
    "(3473401212609495 / 2 ^ 48 :: real) \<le> 7205539501467239 / 2 ^ 41" by simp_all
  from round_trip_bound [OF listed_db_layout msg sg tps_limits to_phys_tps_lo a to_phys_tps_hi b x]
  show ?thesis
    using listed_db_layout tps_limits to_phys_tps_lo to_phys_tps_hi by blast
qed

text \<open>
  The round trip of the witness: \<open>12.34 / 0.1\<close> is \<open>123.39999999999999\<close>, the raw value is
  123, and \<open>123 * 0.1\<close> is the double \<open>12.3\<close>.
\<close>

lemma round_trip_tps_12_34:
  "to_raw tps (Finite (3473401212609495 / 2 ^ 48)) = Inr 123
   \<and> to_phys tps 123 = Inr (PyFloat (Finite (3462142213541069 / 2 ^ 48)))"
proof -
  have a: "fl (3473401212609495 / 2 ^ 48) = Finite (3473401212609495 / 2 ^ 48)"
    using fl_eval [of 3 "3473401212609495 / 2 ^ 48"]
    by (simp add: round_half_even_def power_int_minus)
  have b: "fl (3473401212609495 / 2 ^ 48 / dbl_0_1) = Finite (8683503031523737 / 2 ^ 46)"
    using fl_eval [of 6 "3473401212609495 / 2 ^ 48 / dbl_0_1"]
    by (simp add: round_half_even_def power_int_minus dbl_0_1_def)
  have c: "round_half_even (8683503031523737 / 2 ^ 46) = 123"
    by (simp add: round_half_even_def)
  have d: "fl (123 * dbl_0_1) = Finite (3462142213541069 / 2 ^ 48)"
    using fl_eval [of 3 "123 * dbl_0_1"]
    by (simp add: round_half_even_def power_int_minus dbl_0_1_def)
  have e: "fl (3462142213541069 / 2 ^ 48) = Finite (3462142213541069 / 2 ^ 48)"
    using fl_eval [of 3 "3462142213541069 / 2 ^ 48"]
    by (simp add: round_half_even_def power_int_minus)
  have "to_raw tps (Finite (3473401212609495 / 2 ^ 48)) = Inr 123"
    using a b c by (simp add: to_raw_def)
  moreover have "to_phys tps 123 = Inr (PyFloat (Finite (3462142213541069 / 2 ^ 48)))"
    using d e by (simp add: to_phys_def int_to_float_numeral)
  ultimately show ?thesis by simp
qed

subsection \<open>Substitution of 0.0\<close>

text \<open>
  Claim C8. Let the value requested for a signal be non-numeric (\<open>float()\<close> raises) or
  non-finite, and let \<open>to_phys(sig, clamp(round((0.0 - offset) / scale)))\<close> be defined, with
  value \<open>p\<close>. Then the physical value that enters the raw conversion is 0.0, the raw
  integer is \<open>round((0.0 - offset) / scale)\<close> as double arithmetic computes it, the loop body
  of \<open>encode_message_safe\<close> does not raise for the signal and records \<open>p\<close> as its used
  physical value, and \<open>p\<close> is what \<open>encode_message_safe\<close> reports for the signal when it
  returns (signal names are distinct).
\<close>

theorem non_numeric_substitution:
  assumes bad: "case py_float v of Inl e \<Rightarrow> True | Inr f \<Rightarrow> \<not> isfinite f"
    and r: "to_raw sg (Finite 0) = Inr r"
    and c: "clamp_raw sg r = Inr (rc, w)"
    and p: "to_phys sg rc = Inr p"
  shows "phys_val_of v = Finite 0
       \<and> (\<exists>c s. to_float (offset sg) = Inr c \<and> to_float (scale sg) = Inr s \<and> s \<noteq> 0
              \<and> r = round_half_even (rnd_val (rnd_val (0 - c) / s)))
       \<and> encode_signal sg v (used, clamped) =
           Inr (AList.update (sig_name sg) p used,
                if w then AList.update (sig_name sg) (v, p) clamped else clamped)
       \<and> (sg \<in> set (signals msg) \<and> distinct (map sig_name (signals msg))
            \<and> desired_get desired (sig_name sg) = v
            \<and> encode_message_safe pack msg desired = Inr (payload, used', clamped')
           \<longrightarrow> map_of used' (sig_name sg) = Some p)"
proof -
  have z: "phys_val_of v = Finite 0"
    using bad by (rule phys_val_of_bad)
  have f: "\<exists>c s. to_float (offset sg) = Inr c \<and> to_float (scale sg) = Inr s \<and> s \<noteq> 0
              \<and> r = round_half_even (rnd_val (rnd_val (0 - c) / s))"
  proof -
    from r obtain c0 where c0: "to_float (offset sg) = Inr c0"
      by (cases "to_float (offset sg)") (auto simp: to_raw_def)
    from r c0 obtain s0 where s0: "to_float (scale sg) = Inr s0"
      by (cases "to_float (scale sg)") (auto simp: to_raw_def)
    from r have "s0 \<noteq> 0 \<and> r = round_half_even (rnd_val (rnd_val (0 - c0) / s0))"
      unfolding to_raw_Finite [OF c0 s0] by (auto split: if_splits)
    with c0 s0 show ?thesis by blast
  qed
  have e: "encode_signal sg v (used, clamped) =
           Inr (AList.update (sig_name sg) p used,
                if w then AList.update (sig_name sg) (v, p) clamped else clamped)"
    using r c p by (simp add: encode_signal_def z raw_of_def)
  have m: "map_of used' (sig_name sg) = Some p"
    if mem: "sg \<in> set (signals msg)" and dist: "distinct (map sig_name (signals msg))"
      and v: "desired_get desired (sig_name sg) = v"
      and enc: "encode_message_safe pack msg desired = Inr (payload, used', clamped')"
  proof -
    from enc obtain c' where
      es: "encode_signals (signals msg) desired ([], []) = Inr (used', c')"
      by (auto simp: encode_message_safe_def split: sum.splits prod.splits)
    from encode_signals_used [OF es mem dist] obtain lo hi p' where
      l: "raw_limits sg = Inr (lo, hi)"
      and p': "to_phys sg (max lo (min hi (raw_of sg (phys_val_of v)))) = Inr p'"
      and u: "map_of used' (sig_name sg) = Some p'"
      unfolding v by auto
    have "raw_of sg (phys_val_of v) = r" using r by (simp add: z raw_of_def)
    moreover have "rc = max lo (min hi r)" using c by (simp add: clamp_raw_eq [OF l])
    ultimately have "p' = p" using p p' by simp
    with u show ?thesis by simp
  qed
  show ?thesis using z f e m by blast
qed

lemma dash0_nan:
  "encode_message_safe zero_pack dash0 [''tps'' \<mapsto> PyFloat NaN] =
     Inr (replicate 8 0,
          [(''map'', PyFloat (Finite 0)), (''rpm'', PyInt 0), (''clt'', PyFloat (Finite 0)),
           (''tps'', PyFloat (Finite 0))],
          [])"
  by (simp add: encode_message_safe_def dash0_def zero_pack_def desired_get_def encode_zero_dash0)

theorem non_numeric_substitution_witness:
  "(case py_float (PyFloat NaN) of Inl e \<Rightarrow> True | Inr f \<Rightarrow> \<not> isfinite f)
   \<and> to_raw tps (Finite 0) = Inr 0
   \<and> clamp_raw tps 0 = Inr (0, False)
   \<and> to_phys tps 0 = Inr (PyFloat (Finite 0))
   \<and> phys_val_of (PyFloat NaN) = Finite 0
   \<and> (\<exists>c s. to_float (offset tps) = Inr c \<and> to_float (scale tps) = Inr s \<and> s \<noteq> 0
          \<and> 0 = round_half_even (rnd_val (rnd_val (0 - c) / s)))
   \<and> encode_signal tps (PyFloat NaN) ([], []) = Inr ([(''tps'', PyFloat (Finite 0))], [])
   \<and> encode_message_safe zero_pack dash0 [''tps'' \<mapsto> PyFloat NaN] =
       Inr (replicate 8 0,
            [(''map'', PyFloat (Finite 0)), (''rpm'', PyInt 0), (''clt'', PyFloat (Finite 0)),
             (''tps'', PyFloat (Finite 0))],
            [])
   \<and> map_of [(''map'', PyFloat (Finite 0)), (''rpm'', PyInt 0), (''clt'', PyFloat (Finite 0)),
              (''tps'', PyFloat (Finite 0))] (sig_name tps) = Some (PyFloat (Finite 0))"
proof -
  have b: "case py_float (PyFloat NaN) of Inl e \<Rightarrow> True | Inr f \<Rightarrow> \<not> isfinite f"
    by simp
  have r: "to_raw tps (Finite 0) = Inr 0"
    by (rule to_raw_zero [of tps dbl_0_1]) simp_all
  have c: "clamp_raw tps 0 = Inr (0, False)"
    by (simp add: clamp_raw_def tps_limits)
  have p: "to_phys tps 0 = Inr (PyFloat (Finite 0))"
    by (rule to_phys_zero_float [of tps dbl_0_1]) simp_all
  have mem: "tps \<in> set (signals dash0)" by (simp add: dash0_def)
  have dist: "distinct (map sig_name (signals dash0))"
    by (simp add: dash0_def)
  have v: "desired_get [''tps'' \<mapsto> PyFloat NaN] (sig_name tps) = PyFloat NaN"
    by (simp add: desired_get_def)
  note t = non_numeric_substitution [OF b r c p, of "[]" "[]" dash0 "[''tps'' \<mapsto> PyFloat NaN]"
      zero_pack "replicate 8 0"
      "[(''map'', PyFloat (Finite 0)), (''rpm'', PyInt 0), (''clt'', PyFloat (Finite 0)),
        (''tps'', PyFloat (Finite 0))]" "[]"]
  from t have 1: "phys_val_of (PyFloat NaN) = Finite 0" by blast
  from t have 2: "\<exists>c s. to_float (offset tps) = Inr c \<and> to_float (scale tps) = Inr s \<and> s \<noteq> 0
          \<and> 0 = round_half_even (rnd_val (rnd_val (0 - c) / s))" by blast
  from t have 3: "encode_signal tps (PyFloat NaN) ([], []) = Inr ([(''tps'', PyFloat (Finite 0))], [])"
    by simp
  from t mem dist v dash0_nan
  have 4: "map_of [(''map'', PyFloat (Finite 0)), (''rpm'', PyInt 0), (''clt'', PyFloat (Finite 0)),
              (''tps'', PyFloat (Finite 0))] (sig_name tps) = Some (PyFloat (Finite 0))"
    by blast
  show ?thesis using b r c p 1 2 3 4 dash0_nan by blast
qed

subsection \<open>Saturation\<close>

text \<open>
  Claim C9. For a signal with raw limits \<open>lo\<close> and \<open>hi\<close>, a physical value whose raw
  conversion is exactly a limit and a physical value whose raw conversion is twice that
  limit are clamped to the same raw value, the limit itself.
\<close>

theorem clamp_saturates:
  assumes "raw_limits sg = Inr (lo, hi)"
    and "b = lo \<or> b = hi"
    and "to_raw sg x1 = Inr b"
    and "to_raw sg x2 = Inr (2 * b)"
  shows "map_sum id fst (clamp_raw sg (raw_of sg x1)) = Inr b
       \<and> map_sum id fst (clamp_raw sg (raw_of sg x2)) = Inr b"
  using assms raw_limits_order [OF assms(1)]
  by (auto simp: clamp_raw_eq raw_of_def)

theorem clamp_saturates_witness:
  "raw_limits rpm = Inr (0, 65535)
   \<and> to_raw rpm (Finite 65535) = Inr 65535
   \<and> to_raw rpm (Finite 131070) = Inr (2 * 65535)
   \<and> map_sum id fst (clamp_raw rpm (raw_of rpm (Finite 65535))) = Inr 65535
   \<and> map_sum id fst (clamp_raw rpm (raw_of rpm (Finite 131070))) = Inr 65535"
proof -
  have l: "raw_limits rpm = Inr (0, 65535)"
    by simp
  have a: "to_raw rpm (Finite 65535) = Inr 65535"
    by (simp add: to_raw_def fl_numeral)
  have b: "to_raw rpm (Finite 131070) = Inr (2 * 65535)"
    by (simp add: to_raw_def fl_numeral)
  show ?thesis
    using clamp_saturates [OF l _ a b] l a b by simp
qed


section \<open>Properties of the scheduler\<close>

text \<open>
  Claim C10. Constructing the scheduler with a rate \<open>hz \<le> 0\<close> raises \<open>ValueError\<close>; with
  \<open>hz > 0\<close> it succeeds, the period is \<open>1.0 / hz\<close> and the scheduler is unstarted.
\<close>

theorem scheduler_init_spec:
  "(h \<le> 0 \<longrightarrow> scheduler_init h = Inl ValueError)
   \<and> (0 < h \<longrightarrow> scheduler_init h = Inr \<lparr>hz = h, dt = 1 / h, s_start = None, s_next = None\<rparr>)"
  by (simp add: scheduler_init_def)

theorem scheduler_init_spec_witness:
  "scheduler_init 0 = Inl ValueError
   \<and> scheduler_init (- 3) = Inl ValueError
   \<and> scheduler_init 50 = Inr \<lparr>hz = 50, dt = 1 / 50, s_start = None, s_next = None\<rparr>"
  using scheduler_init_spec [of 0] scheduler_init_spec [of "- 3"] scheduler_init_spec [of 50]
  by simp

text \<open>
  Claim C3. Every call of \<open>wait_next\<close> returns. When the clock is at or past the deadline
  the call does not sleep, and the new deadline is the clock reading plus one period;
  otherwise it sleeps until the deadline and the new deadline is the old one plus one
  period. After a late call, a call made less than one period later sleeps: however late
  the tick was, at most one tick comes without a sleep.
\<close>

theorem wait_next_spec:
  fixes s :: scheduler and clk :: clock
  defines "nxt \<equiv> stored_deadline s clk" and "now \<equiv> t_now clk"
  shows "\<exists>s' el. wait_next s clk = Inr (s', (if nxt \<le> now then None else Some (nxt - now)), el)
          \<and> s_next s' = Some ((if nxt \<le> now then now else nxt) + dt s)
          \<and> dt s' = dt s
          \<and> (nxt \<le> now \<longrightarrow>
               (\<forall>clk2. t_now clk2 < now + dt s \<longrightarrow>
                  (\<exists>s'' el2. wait_next s' clk2 = Inr (s'', Some (now + dt s - t_now clk2), el2))))"
proof -
  define s1 where "s1 = (if s_start s = None \<or> s_next s = None then scheduler_start s (t_start clk) else s)"
  have d1: "dt s1 = dt s" by (simp add: s1_def scheduler_start_def)
  have n1: "s_next s1 = Some nxt"
    by (auto simp: s1_def nxt_def stored_deadline_def scheduler_start_def split: option.splits)
  have st1: "s_start s1 \<noteq> None"
    by (auto simp: s1_def scheduler_start_def)
  have w: "wait_next s clk =
      (if 0 < nxt - now
       then Inr (s1\<lparr>s_next := Some (nxt + dt s)\<rparr>, Some (nxt - now),
                 t_woke clk - start_or (s_start s1) (t_woke clk))
       else Inr (s1\<lparr>s_next := Some (now + dt s)\<rparr>, None, now - start_or (s_start s1) now))"
    unfolding wait_next_def s1_def [symmetric] Let_def now_def [symmetric]
    by (simp add: n1 d1)
  show ?thesis
  proof (cases "nxt \<le> now")
    case True
    let ?s' = "s1\<lparr>s_next := Some (now + dt s)\<rparr>"
    have r: "wait_next s clk = Inr (?s', None, now - start_or (s_start s1) now)"
      using True by (simp add: w)
    have nb: "\<exists>s'' el2. wait_next ?s' clk2 = Inr (s'', Some (now + dt s - t_now clk2), el2)"
      if "t_now clk2 < now + dt s" for clk2
      using that st1 by (auto simp: wait_next_def Let_def d1)
    show ?thesis using True r nb d1 by auto
  next
    case False
    then show ?thesis using d1 by (simp add: w)
  qed
qed

theorem wait_next_spec_witness:
  "stored_deadline late_scheduler late_clock \<le> t_now late_clock
   \<and> t_now soon_clock < t_now late_clock + dt late_scheduler
   \<and> wait_next late_scheduler late_clock = Inr (late_scheduler\<lparr>s_next := Some (5 + 1 / 50)\<rparr>, None, 4)
   \<and> (\<exists>s'' el2. wait_next (late_scheduler\<lparr>s_next := Some (5 + 1 / 50)\<rparr>) soon_clock
         = Inr (s'', Some (1 / 100), el2))"
proof -
  have a: "stored_deadline late_scheduler late_clock \<le> t_now late_clock"
    by (simp add: stored_deadline_def late_scheduler_def late_clock_def)
  have b: "t_now soon_clock < t_now late_clock + dt late_scheduler"
    by (simp add: soon_clock_def late_clock_def late_scheduler_def)
  have c: "wait_next late_scheduler late_clock
           = Inr (late_scheduler\<lparr>s_next := Some (5 + 1 / 50)\<rparr>, None, 4)"
    by (simp add: wait_next_def late_scheduler_def late_clock_def start_or_def)
  from wait_next_spec [of late_scheduler late_clock] a c
  have "\<forall>clk2. t_now clk2 < t_now late_clock + dt late_scheduler \<longrightarrow>
          (\<exists>s'' el2. wait_next (late_scheduler\<lparr>s_next := Some (5 + 1 / 50)\<rparr>) clk2
             = Inr (s'', Some (t_now late_clock + dt late_scheduler - t_now clk2), el2))"
    by auto
  with b have "\<exists>s'' el2. wait_next (late_scheduler\<lparr>s_next := Some (5 + 1 / 50)\<rparr>) soon_clock
             = Inr (s'', Some (t_now late_clock + dt late_scheduler - t_now soon_clock), el2)"
    by blast
  then show ?thesis using a b c
    by (simp add: soon_clock_def late_clock_def late_scheduler_def)
qed

section \<open>Properties of the transports\<close>

lemma try_pass_Returns [simp]: "try_pass r = Returns"
  by (simp add: try_pass_def split: outcome.splits)

lemma termux_dev_close_returns: "snd (termux_dev_close d env) = Returns"
  by (simp add: termux_dev_close_def Let_def)

lemma pc_on_error_False:
  "pc_on_error t e = (t', Inr False) \<Longrightarrow> t' = t\<lparr>pc_tx_errors := pc_tx_errors t + 1\<rparr>"
  by (simp add: pc_on_error_def split: if_splits)

lemma python_can_send_False:
  assumes "python_can_send t env fid payload ext = (t', Inr False)"
  shows "t' = t\<lparr>pc_tx_errors := pc_tx_errors t + 1\<rparr>"
proof -
  from assms obtain e where "pc_on_error t e = (t', Inr False)"
    unfolding python_can_send_def
    by (auto split: if_splits outcome.splits)
  then show ?thesis by (rule pc_on_error_False)
qed

lemma slcan_send_False:
  assumes "slcan_send u senv fid payload ext = (u', Inr False)"
  shows "u' = u\<lparr>sl_tx_errors := sl_tx_errors u + 1\<rparr>"
  using assms unfolding slcan_send_def
  by (simp split: if_splits sum.splits outcome.splits)

text \<open>
  Claim C6, as amended. A call of \<open>send\<close> that returns False has incremented \<open>tx_errors\<close>
  by one, in every transport. On an open python-can transport a \<open>can.CanError\<close> from the
  bus makes \<open>send\<close> return False; on an open serial SLCAN transport any exception of the
  write, and an error response, make it return False. The Termux USB transport never
  returns False: when the write raises it increments \<open>tx_errors\<close> by one and raises the
  exception again.
\<close>

theorem send_false_counts:
  "(python_can_send t env fid payload ext = (t', Inr False) \<longrightarrow> pc_tx_errors t' = pc_tx_errors t + 1)
   \<and> (slcan_send u senv fid payload ext = (u', Inr False) \<longrightarrow> sl_tx_errors u' = sl_tx_errors u + 1)
   \<and> termux_send v w fid payload ext \<noteq> (v', Inr False)
   \<and> (bus t \<noteq> None \<and> msg_ctor env = Returns \<and> backend t \<noteq> Some ''termux-usb''
        \<and> bus_send env = Raises CanError
       \<longrightarrow> python_can_send t env fid payload ext = (t\<lparr>pc_tx_errors := pc_tx_errors t + 1\<rparr>, Inr False))
   \<and> (ser u \<noteq> None \<and> format_frame fid payload ext = Inr frame \<and> write_cmd u senv frame = Raises e
       \<longrightarrow> slcan_send u senv fid payload ext = (u\<lparr>sl_tx_errors := sl_tx_errors u + 1\<rparr>, Inr False))
   \<and> (dev v \<noteq> None \<and> w (termux_frame fid payload ext) = Raises e
       \<longrightarrow> termux_send v w fid payload ext = (v\<lparr>tu_tx_errors := tu_tx_errors v + 1\<rparr>, Inl e))"
proof -
  have a: "python_can_send t env fid payload ext = (t', Inr False) \<longrightarrow> pc_tx_errors t' = pc_tx_errors t + 1"
    by (rule impI, drule python_can_send_False) simp
  have b: "slcan_send u senv fid payload ext = (u', Inr False) \<longrightarrow> sl_tx_errors u' = sl_tx_errors u + 1"
    by (rule impI, drule slcan_send_False) simp
  have c: "termux_send v w fid payload ext \<noteq> (v', Inr False)"
    by (simp add: termux_send_def split: outcome.splits)
  have d: "bus t \<noteq> None \<and> msg_ctor env = Returns \<and> backend t \<noteq> Some ''termux-usb''
        \<and> bus_send env = Raises CanError
       \<longrightarrow> python_can_send t env fid payload ext = (t\<lparr>pc_tx_errors := pc_tx_errors t + 1\<rparr>, Inr False)"
    by (simp add: python_can_send_def pc_on_error_def)
  have e: "ser u \<noteq> None \<and> format_frame fid payload ext = Inr frame \<and> write_cmd u senv frame = Raises e
       \<longrightarrow> slcan_send u senv fid payload ext = (u\<lparr>sl_tx_errors := sl_tx_errors u + 1\<rparr>, Inr False)"
    by (simp add: slcan_send_def)
  have f: "dev v \<noteq> None \<and> w (termux_frame fid payload ext) = Raises e
       \<longrightarrow> termux_send v w fid payload ext = (v\<lparr>tu_tx_errors := tu_tx_errors v + 1\<rparr>, Inl e)"
    by (simp add: termux_send_def)
  show ?thesis using a b c d e f by blast
qed

theorem send_false_counts_witness:
  "python_can_send open_python_can busy_bus 1512 [0, 0, 0, 0, 0, 0, 0, 0] False
     = (open_python_can\<lparr>pc_tx_errors := 1\<rparr>, Inr False)
   \<and> slcan_send open_slcan dead_port 1512 [0, 0, 0, 0, 0, 0, 0, 0] False
     = (open_slcan\<lparr>sl_tx_errors := 1\<rparr>, Inr False)
   \<and> termux_send open_termux failing_write 1512 [0, 0, 0, 0, 0, 0, 0, 0] False
     = (open_termux\<lparr>tu_tx_errors := 1\<rparr>, Inl RuntimeError)"
proof -
  have f: "format_frame 1512 [0, 0, 0, 0, 0, 0, 0, 0] False = Inr ''t5E880000000000000000''"
    by (simp add: format_frame_def zero_pad_def bytes_hex_def hex_digit_def)
  have w: "write_cmd open_slcan dead_port ''t5E880000000000000000'' = Raises RuntimeError"
    by (simp add: write_cmd_def open_slcan_def dead_port_def failing_write_def)
  have p: "bus open_python_can \<noteq> None \<and> msg_ctor busy_bus = Returns
           \<and> backend open_python_can \<noteq> Some ''termux-usb'' \<and> bus_send busy_bus = Raises CanError"
    by (simp add: open_python_can_def busy_bus_def)
  have s: "ser open_slcan \<noteq> None" by (simp add: open_slcan_def)
  have d: "dev open_termux \<noteq> None
           \<and> failing_write (termux_frame 1512 [0, 0, 0, 0, 0, 0, 0, 0] False) = Raises RuntimeError"
    by (simp add: open_termux_def failing_write_def)
  show ?thesis
    using send_false_counts [of open_python_can busy_bus 1512 "[0, 0, 0, 0, 0, 0, 0, 0]" False _
        open_slcan dead_port _ open_termux failing_write _ "''t5E880000000000000000''" RuntimeError]
      f w p s d
    by (simp add: open_python_can_def open_slcan_def open_termux_def)
qed

text \<open>
  The claim as first stated has every transport return False on a failed transmit; the
  Termux USB transport raises.
\<close>

theorem termux_send_raises:
  "termux_send open_termux failing_write 1512 [0, 0, 0, 0, 0, 0, 0, 0] False
     = (open_termux\<lparr>tu_tx_errors := 1\<rparr>, Inl RuntimeError)
   \<and> Inl RuntimeError \<noteq> (Inr False :: py_error + bool)"
  by (simp add: termux_send_def open_termux_def failing_write_def)

text \<open>
  Claim C7. In every transport and every state, whatever the calls into the libraries do,
  \<open>close()\<close> returns without raising and leaves the link field (\<open>bus\<close>, \<open>ser\<close>, \<open>dev\<close>)
  at \<open>None\<close>; on a closed transport it makes no library call and changes nothing.
\<close>

theorem close_is_safe:
  "fst (python_can_close t env) = t\<lparr>bus := None\<rparr>
   \<and> snd (snd (python_can_close t env)) = Returns
   \<and> python_can_close (t\<lparr>bus := None\<rparr>) env' = (t\<lparr>bus := None\<rparr>, [], Returns)
   \<and> fst (slcan_close u senv env) = u\<lparr>ser := None\<rparr>
   \<and> snd (snd (slcan_close u senv env)) = Returns
   \<and> slcan_close (u\<lparr>ser := None\<rparr>) senv' env' = (u\<lparr>ser := None\<rparr>, [], Returns)
   \<and> fst (termux_close v env) = v\<lparr>dev := None\<rparr>
   \<and> snd (snd (termux_close v env)) = Returns
   \<and> termux_close (v\<lparr>dev := None\<rparr>) env' = (v\<lparr>dev := None\<rparr>, [], Returns)"
proof -
  have t: "termux_close v env = (v\<lparr>dev := None\<rparr>, fst (termux_dev_close (the (dev v)) env), Returns)"
    if "dev v \<noteq> None"
    using that termux_dev_close_returns [of "the (dev v)" env]
    by (cases "termux_dev_close (the (dev v)) env") (auto simp: termux_close_def)
  show ?thesis
    using t by (cases "dev v = None") (auto simp: python_can_close_def slcan_close_def termux_close_def)
qed

section \<open>Properties of the transmission loop\<close>

subsection \<open>The reopen loop\<close>

lemma backoff_step: "min (min (2 ^ n / 2) 2 * 2) (2::real) = min (2 ^ Suc n / 2) 2"
proof (cases "n \<le> 1")
  case True
  then have "n = 0 \<or> n = 1" by auto
  then show ?thesis by auto
next
  case False
  then have "2 \<le> n" by simp
  then have "(2::real) ^ 2 \<le> 2 ^ n" by (intro power_increasing) simp_all
  then have "(4::real) \<le> 2 ^ n" by simp
  then show ?thesis by (simp add: min_def)
qed

lemma reopen_loop_raised:
  assumes "\<not> stop_evt st" and "backoff st = 1 / 2" and "\<forall>i<k. obs i = OpenRaised"
  shows "reopen_loop obs 0 st =
         reopen_loop obs k (st\<lparr>trace := trace st @ reopen_trace k, backoff := min (2 ^ k / 2) 2\<rparr>)"
  using assms(3)
proof (induction k)
  case 0
  have e: "min (2 ^ 0 / 2) (2::real) = 1 / 2" by simp
  show ?case unfolding e assms(2) [symmetric] reopen_trace_def by simp
next
  case (Suc k)
  let ?sk = "st\<lparr>trace := trace st @ reopen_trace k, backoff := min (2 ^ k / 2) 2\<rparr>"
  have "reopen_loop obs 0 st = reopen_loop obs k ?sk"
    using Suc by simp
  also have "\<dots> = reopen_loop obs (Suc k)
      (?sk\<lparr>trace := trace ?sk @ [ActOpen False, ActSleep (backoff ?sk)],
           backoff := min (backoff ?sk * 2) 2\<rparr>)"
    using Suc.prems assms(1) by (subst reopen_loop.simps) simp
  also have "(?sk\<lparr>trace := trace ?sk @ [ActOpen False, ActSleep (backoff ?sk)],
           backoff := min (backoff ?sk * 2) 2\<rparr>)
      = st\<lparr>trace := trace st @ reopen_trace (Suc k), backoff := min (2 ^ Suc k / 2) 2\<rparr>"
    using backoff_step [of k] by (simp add: reopen_trace_def)
  finally show ?case .
qed

lemma reopen_loop_opens:
  assumes "\<not> stop_evt st" and "backoff st = 1 / 2"
    and "\<forall>i<k. obs i = OpenRaised" and "obs k = OpenOk"
  shows "reopen_loop obs 0 st =
         Some (True, st\<lparr>consec_errors := 0, backoff := 1 / 2,
                        trace := trace st @ reopen_trace k @ [ActOpen True]\<rparr>)"
  unfolding reopen_loop_raised [OF assms(1,2,3)]
  using assms(1,4) by (subst reopen_loop.simps) simp

lemma reopen_loop_stops:
  assumes "\<not> stop_evt st" and "backoff st = 1 / 2"
    and "\<forall>i<k. obs i = OpenRaised" and "obs k = StopFile"
  shows "reopen_loop obs 0 st =
         Some (False, st\<lparr>stop_evt := True, trace := trace st @ reopen_trace k,
                         backoff := min (2 ^ k / 2) 2\<rparr>)"
  unfolding reopen_loop_raised [OF assms(1,2,3)]
  using assms(1,4) by (subst reopen_loop.simps) simp

lemma reopen_trace_3:
  "reopen_trace 3 = [ActOpen False, ActSleep (1 / 2), ActOpen False, ActSleep 1,
                     ActOpen False, ActSleep 2]"
  by (simp add: reopen_trace_def eval_nat_numeral)

lemma reopen_trace_4:
  "reopen_trace 4 = [ActOpen False, ActSleep (1 / 2), ActOpen False, ActSleep 1,
                     ActOpen False, ActSleep 2, ActOpen False, ActSleep 2]"
  by (simp add: reopen_trace_def eval_nat_numeral)

lemma sent_ids_append [simp]: "sent_ids (xs @ ys) = sent_ids xs @ sent_ids ys"
  by (simp add: sent_ids_def)

lemma sent_ids_simps [simp]:
  "sent_ids [] = []"
  "sent_ids (ActSend i # tr) = i # sent_ids tr"
  "sent_ids (ActReopenBegin # tr) = sent_ids tr"
  "sent_ids (ActClose # tr) = sent_ids tr"
  "sent_ids (ActHardReset # tr) = sent_ids tr"
  "sent_ids (ActOpen b # tr) = sent_ids tr"
  "sent_ids (ActSleep d # tr) = sent_ids tr"
  by (simp_all add: sent_ids_def)


lemma reopen_loop_True:
  assumes "reopen_loop obs i st = Some r"
  shows "fst r \<longrightarrow> backoff (snd r) = 1 / 2 \<and> \<not> stop_evt (snd r) \<and> consec_errors (snd r) = 0"
  using assms
proof (induction rule: reopen_loop.raw_induct [rotated 1, consumes 1])
  case (1 rl obs i st r)
  show ?case
  proof (cases "stop_evt st")
    case True
    with 1(2) show ?thesis by auto
  next
    case False
    show ?thesis
    proof (cases "obs i")
      case StopFile
      with False 1(2) show ?thesis by auto
    next
      case OpenRaised
      with False 1(2) have
        "rl obs (Suc i) (st\<lparr>trace := trace st @ [ActOpen False, ActSleep (backoff st)],
                            backoff := min (backoff st * 2) 2\<rparr>) = Some r"
        by simp
      from 1(1) [OF this] show ?thesis by simp
    next
      case OpenOk
      with False 1(2) show ?thesis by auto
    qed
  qed
qed

lemma hard_reset_sent [simp]: "sent_ids (hard_reset_actions hk) = []"
  by (cases hk) (simp_all add: hard_reset_actions_def)

subsection \<open>Handling the result of a send\<close>


lemma handle_send_invariant:
  assumes "handle_send hk obs res st = Some (True, st')"
    and "\<not> stop_evt st" and "backoff st = 1 / 2"
  shows "backoff st' = 1 / 2 \<and> \<not> stop_evt st'"
proof (cases "res = SendTrue")
  case True
  with assms show ?thesis by (auto simp: handle_send_def)
next
  case False
  show ?thesis
  proof (cases "50 \<le> consec_errors st + 1")
    case True
    with False assms(1) show ?thesis
      by (auto simp: handle_send_def Let_def dest!: reopen_loop_True)
  next
    case b: False
    with False assms show ?thesis by (auto simp: handle_send_def Let_def)
  qed
qed

lemma after_sends_invariant:
  assumes "after_sends hk evs st = Some (True, st')"
    and "\<not> stop_evt st" and "backoff st = 1 / 2"
  shows "backoff st' = 1 / 2 \<and> \<not> stop_evt st'"
  using assms
proof (induction evs arbitrary: st)
  case Nil
  then show ?case by simp
next
  case (Cons ev evs)
  obtain res obs where ev: "ev = (res, obs)" by (cases ev)
  from Cons.prems(1) obtain st1 where
    h: "handle_send hk obs res st = Some (True, st1)"
    and r: "after_sends hk evs st1 = Some (True, st')"
    by (auto simp: ev split: option.splits if_splits)
  from handle_send_invariant [OF h Cons.prems(2,3)] Cons.IH [OF r] show ?case by simp
qed

lemma handle_send_below:
  assumes "res \<noteq> SendTrue" and "consec_errors st + 1 < 50"
  shows "\<exists>st'. handle_send hk obs res st = Some (True, st')
           \<and> consec_errors st' = consec_errors st + 1 \<and> backoff st' = backoff st
           \<and> trace st' = trace st \<and> stop_evt st' = stop_evt st"
  using assms by (simp add: handle_send_def Let_def)

lemma after_sends_fails:
  assumes "\<forall>r\<in>set fs. fst r \<noteq> SendTrue" and "consec_errors st + length fs < 50"
  shows "\<exists>st'. after_sends hk fs st = Some (True, st')
           \<and> consec_errors st' = consec_errors st + length fs \<and> backoff st' = backoff st
           \<and> trace st' = trace st \<and> stop_evt st' = stop_evt st"
  using assms
proof (induction fs arbitrary: st)
  case Nil
  then show ?case by simp
next
  case (Cons ev fs)
  obtain res obs where ev: "ev = (res, obs)" by (cases ev)
  have "res \<noteq> SendTrue" "consec_errors st + 1 < 50"
    using Cons.prems by (simp_all add: ev)
  from handle_send_below [OF this, of hk obs] obtain st1 where
    h: "handle_send hk obs res st = Some (True, st1)"
    and c: "consec_errors st1 = consec_errors st + 1" "backoff st1 = backoff st"
      "trace st1 = trace st" "stop_evt st1 = stop_evt st" by blast
  have "\<forall>r\<in>set fs. fst r \<noteq> SendTrue" "consec_errors st1 + length fs < 50"
    using Cons.prems c by simp_all
  from Cons.IH [OF this] obtain st' where
    "after_sends hk fs st1 = Some (True, st')"
    "consec_errors st' = consec_errors st1 + length fs" "backoff st' = backoff st1"
    "trace st' = trace st1" "stop_evt st' = stop_evt st1" by blast
  with h c show ?case by (simp add: ev)
qed

lemma after_sends_append:
  assumes "after_sends hk xs st = Some (True, st1)"
  shows "after_sends hk (xs @ ys) st = after_sends hk ys st1"
  using assms
proof (induction xs arbitrary: st)
  case Nil
  then show ?case by simp
next
  case (Cons ev xs)
  obtain res obs where ev: "ev = (res, obs)" by (cases ev)
  from Cons.prems obtain st2 where
    h: "handle_send hk obs res st = Some (True, st2)"
    and r: "after_sends hk xs st2 = Some (True, st1)"
    by (auto simp: ev split: option.splits if_splits)
  from Cons.IH [OF r] h show ?case by (simp add: ev)
qed

text \<open>
  Claim C4. Take a running session whose failure counter is 0 and let 49 sends fail in a
  row. If the next send succeeds, nothing was closed or reopened, and the counter is 0 and
  the backoff 0.5 s. If the next send fails too, the loop closes the transport and tries
  to reopen it: each failed attempt is followed by a sleep that starts at 0.5 s and
  doubles up to 2.0 s, until an attempt succeeds (counter 0, backoff 0.5 s) or the stop
  file is seen (the stop event is set and the loop is left without reopening).
\<close>

theorem recovery_state_machine:
  assumes reach: "after_sends hk history initial_session = Some (True, st)"
    and c0: "consec_errors st = 0"
    and len: "length fs = 49" and fails: "\<forall>r\<in>set fs. fst r \<noteq> SendTrue"
  shows "(\<exists>st'. after_sends hk (fs @ [(SendTrue, obs)]) st = Some (True, st')
            \<and> consec_errors st' = 0 \<and> backoff st' = 1 / 2 \<and> trace st' = trace st)
       \<and> (res \<noteq> SendTrue \<and> (\<forall>i<k. obs i = OpenRaised) \<and> obs k = OpenOk \<longrightarrow>
            (\<exists>st'. after_sends hk (fs @ [(res, obs)]) st = Some (True, st')
               \<and> consec_errors st' = 0 \<and> backoff st' = 1 / 2
               \<and> trace st' = trace st @ [ActReopenBegin, ActClose] @ hard_reset_actions hk
                              @ reopen_trace k @ [ActOpen True]))
       \<and> (res \<noteq> SendTrue \<and> (\<forall>i<k. obs i = OpenRaised) \<and> obs k = StopFile \<longrightarrow>
            (\<exists>st'. after_sends hk (fs @ [(res, obs)]) st = Some (False, st')
               \<and> stop_evt st'
               \<and> trace st' = trace st @ [ActReopenBegin, ActClose] @ hard_reset_actions hk
                              @ reopen_trace k))"
proof -
  have inv: "backoff st = 1 / 2 \<and> \<not> stop_evt st"
    using after_sends_invariant [OF reach] by (simp add: initial_session_def)
  have "consec_errors st + length fs < 50" using c0 len by simp
  from after_sends_fails [OF fails this, of hk] obtain s49 where
    a: "after_sends hk fs st = Some (True, s49)"
    and s49: "consec_errors s49 = 49" "backoff s49 = 1 / 2" "trace s49 = trace st"
      "\<not> stop_evt s49"
    using inv c0 len by auto
  note app = after_sends_append [OF a]
  have ok: "\<exists>st'. after_sends hk (fs @ [(SendTrue, obs)]) st = Some (True, st')
            \<and> consec_errors st' = 0 \<and> backoff st' = 1 / 2 \<and> trace st' = trace st"
    using s49 by (simp add: app handle_send_def)
  let ?s50 = "\<lambda>r. s49\<lparr>send_exception_count :=
                          (if r = SendRaised then send_exception_count s49 + 1
                           else send_exception_count s49),
                        consec_errors := consec_errors s49 + 1,
                        trace := trace s49 @ [ActReopenBegin, ActClose] @ hard_reset_actions hk\<rparr>"
  have hs: "handle_send hk obs res s49 = reopen_loop obs 0 (?s50 res)" if "res \<noteq> SendTrue"
    using that s49 by (simp add: handle_send_def Let_def)
  have p: "\<not> stop_evt (?s50 res)" "backoff (?s50 res) = 1 / 2"
    using s49 by simp_all
  have opens: "\<exists>st'. after_sends hk (fs @ [(res, obs)]) st = Some (True, st')
               \<and> consec_errors st' = 0 \<and> backoff st' = 1 / 2
               \<and> trace st' = trace st @ [ActReopenBegin, ActClose] @ hard_reset_actions hk
                              @ reopen_trace k @ [ActOpen True]"
    if "res \<noteq> SendTrue" "\<forall>i<k. obs i = OpenRaised" "obs k = OpenOk"
  proof -
    have "handle_send hk obs res s49 =
          Some (True, (?s50 res)\<lparr>consec_errors := 0, backoff := 1 / 2,
                  trace := trace (?s50 res) @ reopen_trace k @ [ActOpen True]\<rparr>)"
      by (simp only: hs [OF that(1)] reopen_loop_opens [OF p that(2,3)])
    then show ?thesis using s49(3) by (simp add: app)
  qed
  have stops: "\<exists>st'. after_sends hk (fs @ [(res, obs)]) st = Some (False, st')
               \<and> stop_evt st'
               \<and> trace st' = trace st @ [ActReopenBegin, ActClose] @ hard_reset_actions hk
                              @ reopen_trace k"
    if "res \<noteq> SendTrue" "\<forall>i<k. obs i = OpenRaised" "obs k = StopFile"
  proof -
    have "handle_send hk obs res s49 =
          Some (False, (?s50 res)\<lparr>stop_evt := True, trace := trace (?s50 res) @ reopen_trace k,
                  backoff := min (2 ^ k / 2) 2\<rparr>)"
      by (simp only: hs [OF that(1)] reopen_loop_stops [OF p that(2,3)])
    then show ?thesis using s49(3) by (simp add: app)
  qed
  show ?thesis using ok opens stops by blast
qed

theorem recovery_state_machine_witness:
  "after_sends NoHardkill [] initial_session = Some (True, initial_session)
   \<and> (\<exists>st'. after_sends NoHardkill
               (replicate 49 (SendFalse, opens_after 3) @ [(SendTrue, opens_after 3)])
               initial_session = Some (True, st')
             \<and> consec_errors st' = 0 \<and> backoff st' = 1 / 2 \<and> trace st' = [])
   \<and> (\<exists>st'. after_sends NoHardkill
               (replicate 49 (SendFalse, opens_after 3) @ [(SendFalse, opens_after 3)])
               initial_session = Some (True, st')
             \<and> consec_errors st' = 0 \<and> backoff st' = 1 / 2
             \<and> trace st' = [ActReopenBegin, ActClose, ActOpen False, ActSleep (1 / 2),
                             ActOpen False, ActSleep 1, ActOpen False, ActSleep 2, ActOpen True])
   \<and> (\<exists>st'. after_sends NoHardkill
               (replicate 49 (SendRaised, stops_after 4) @ [(SendRaised, stops_after 4)])
               initial_session = Some (False, st')
             \<and> stop_evt st'
             \<and> trace st' = [ActReopenBegin, ActClose, ActOpen False, ActSleep (1 / 2),
                             ActOpen False, ActSleep 1, ActOpen False, ActSleep 2,
                             ActOpen False, ActSleep 2])"
proof -
  have reach: "after_sends NoHardkill [] initial_session = Some (True, initial_session)"
    by simp
  have c0: "consec_errors initial_session = 0" by (simp add: initial_session_def)
  have tr: "trace initial_session = []" by (simp add: initial_session_def)
  have o: "SendFalse \<noteq> SendTrue \<and> (\<forall>i<3. opens_after 3 i = OpenRaised) \<and> opens_after 3 3 = OpenOk"
    by (simp add: opens_after_def)
  have s: "SendRaised \<noteq> SendTrue \<and> (\<forall>i<4. stops_after 4 i = OpenRaised) \<and> stops_after 4 4 = StopFile"
    by (simp add: stops_after_def)
  have a: "length (replicate 49 (SendFalse, opens_after 3)) = 49"
    "\<forall>r\<in>set (replicate 49 (SendFalse, opens_after 3)). fst r \<noteq> SendTrue" by simp_all
  have b: "length (replicate 49 (SendRaised, stops_after 4)) = 49"
    "\<forall>r\<in>set (replicate 49 (SendRaised, stops_after 4)). fst r \<noteq> SendTrue" by simp_all
  from recovery_state_machine [OF reach c0 a, of "opens_after 3" SendFalse 3] o
  have 1: "\<exists>st'. after_sends NoHardkill
               (replicate 49 (SendFalse, opens_after 3) @ [(SendTrue, opens_after 3)])
               initial_session = Some (True, st')
             \<and> consec_errors st' = 0 \<and> backoff st' = 1 / 2 \<and> trace st' = []"
    and 2: "\<exists>st'. after_sends NoHardkill
               (replicate 49 (SendFalse, opens_after 3) @ [(SendFalse, opens_after 3)])
               initial_session = Some (True, st')
             \<and> consec_errors st' = 0 \<and> backoff st' = 1 / 2
             \<and> trace st' = [ActReopenBegin, ActClose, ActOpen False, ActSleep (1 / 2),
                             ActOpen False, ActSleep 1, ActOpen False, ActSleep 2, ActOpen True]"
    unfolding tr reopen_trace_3 hard_reset_actions_def by simp_all
  from recovery_state_machine [OF reach c0 b, of "stops_after 4" SendRaised 4] s
  have 3: "\<exists>st'. after_sends NoHardkill
               (replicate 49 (SendRaised, stops_after 4) @ [(SendRaised, stops_after 4)])
               initial_session = Some (False, st')
             \<and> stop_evt st'
             \<and> trace st' = [ActReopenBegin, ActClose, ActOpen False, ActSleep (1 / 2),
                             ActOpen False, ActSleep 1, ActOpen False, ActSleep 2,
                             ActOpen False, ActSleep 2]"
    unfolding tr reopen_trace_4 hard_reset_actions_def by simp
  show ?thesis using reach 1 2 3 by blast
qed

subsection \<open>The order of the frames\<close>













lemma layout_names [simp]:
  "msg_name dash0 = ''megasquirt_dash0''" "msg_name dash1 = ''megasquirt_dash1''"
  "msg_name dash2 = ''megasquirt_dash2''" "msg_name dash3 = ''megasquirt_dash3''"
  "msg_name dash4 = ''megasquirt_dash4''"
  "frame_id dash0 = 1512" "frame_id dash1 = 1513" "frame_id dash2 = 1514"
  "frame_id dash3 = 1515" "frame_id dash4 = 1516"
  by (simp_all add: dash0_def dash1_def dash2_def dash3_def dash4_def)





end
